theory Spec2Isabelle
  imports Complex_Main "HOL-Library.Log_Nat"
begin

section \<open>Conventions\<close>

text \<open>
  The program is Python. Its unbounded integers are written here as \<^typ>\<open>int\<close> and
  a \<^verbatim>\<open>str\<close> as the list of its Unicode code points. Its \<^verbatim>\<open>float\<close> values are
  written as \<^typ>\<open>real\<close> in the telemetry handler and the detector, where only the
  order of the values matters and the rounding of an operation is left out; in
  \<^verbatim>\<open>gps_data.py\<close> and the detection log, where the e7 encoding of a coordinate rests on
  the rounding, a \<^verbatim>\<open>float\<close> is the rational number the double denotes and every
  rounding is written out.

  A dictionary with a fixed set of keys is a record; a key that may be missing is an
  optional field. Every exception the code can raise is a value of \<open>py_error\<close>, and a
  function that can raise returns \<open>py_error + 'a\<close>. Values that come from outside
  the repository (the clock, MAVLink messages, what OpenCV measures on a contour, what
  the OCR engine answers, whether a file operation succeeds) are arguments of the
  functions.
\<close>

datatype py_error =
  IndexError | ZeroDivisionError | ValueError | OverflowError | IOError | EngineError

type_synonym pystr = "nat list"

section \<open>Telemetry: \<^verbatim>\<open>flight_controller_module/mavlink_handler.py\<close>\<close>

text \<open>The dictionary stored in \<^verbatim>\<open>last_gps_data\<close>. The key \<^verbatim>\<open>satellites_visible\<close> exists
  only after a \<^verbatim>\<open>GPS_RAW_INT\<close> message has been merged in.\<close>

record gps_data =
  g_lat :: real
  g_lon :: real
  g_alt :: real
  g_relative_alt :: real
  g_vx :: real
  g_vy :: real
  g_vz :: real
  g_hdg :: real
  g_timestamp :: real
  g_fix_quality :: int
  g_satellites_visible :: "int option"

text \<open>The integer fields of a \<^verbatim>\<open>GLOBAL_POSITION_INT\<close> message.\<close>

record global_position_int =
  msg_lat :: int
  msg_lon :: int
  msg_alt :: int
  msg_relative_alt :: int
  msg_vx :: int
  msg_vy :: int
  msg_vz :: int
  msg_hdg :: int

text \<open>A message, by \<^verbatim>\<open>msg.get_type()\<close>. For \<^verbatim>\<open>GPS_RAW_INT\<close> the two arguments are the
  attributes \<^verbatim>\<open>fix_type\<close> and \<^verbatim>\<open>satellites_visible\<close>, each of which may be missing
  (\<^verbatim>\<open>hasattr\<close>, \<^verbatim>\<open>getattr\<close> with a default).\<close>

datatype mav_msg =
    GLOBAL_POSITION_INT global_position_int
  | GPS_RAW_INT "int option" "int option"
  | OTHER_MESSAGE

record mavlink_handler =
  connected :: bool
  last_gps_data :: "gps_data option"

definition init_handler :: mavlink_handler where
  "init_handler = \<lparr>connected = False, last_gps_data = None\<rparr>"

text \<open>\<^verbatim>\<open>process_message(msg)\<close>; \<open>now\<close> is what \<^verbatim>\<open>time.time()\<close> returns during the call.\<close>

fun process_message :: "mavlink_handler \<Rightarrow> mav_msg \<Rightarrow> real \<Rightarrow> mavlink_handler" where
  "process_message h (GLOBAL_POSITION_INT m) now =
     h\<lparr>last_gps_data := Some
        \<lparr>g_lat = real_of_int (msg_lat m) / 10000000,
         g_lon = real_of_int (msg_lon m) / 10000000,
         g_alt = real_of_int (msg_alt m) / 1000,
         g_relative_alt = real_of_int (msg_relative_alt m) / 1000,
         g_vx = real_of_int (msg_vx m) / 100,
         g_vy = real_of_int (msg_vy m) / 100,
         g_vz = real_of_int (msg_vz m) / 100,
         g_hdg = real_of_int (msg_hdg m) / 100,
         g_timestamp = now,
         g_fix_quality = 3,
         g_satellites_visible = None\<rparr>\<rparr>"
| "process_message h (GPS_RAW_INT fix_type sats) now =
     (case fix_type of
        None \<Rightarrow> h
      | Some ft \<Rightarrow>
          (case last_gps_data h of
             None \<Rightarrow> h
           | Some d \<Rightarrow>
               h\<lparr>last_gps_data := Some
                  (d\<lparr>g_fix_quality := ft,
                     g_satellites_visible := Some (case sats of None \<Rightarrow> 0 | Some n \<Rightarrow> n)\<rparr>)\<rparr>))"
| "process_message h OTHER_MESSAGE now = h"

text \<open>The reader loop hands every received message to \<open>process_message\<close>, each with
  its own clock reading.\<close>

fun process_messages :: "mavlink_handler \<Rightarrow> (mav_msg \<times> real) list \<Rightarrow> mavlink_handler" where
  "process_messages h [] = h"
| "process_messages h ((m, now) # rest) = process_messages (process_message h m now) rest"

fun is_gps_raw_int :: "mav_msg \<Rightarrow> bool" where
  "is_gps_raw_int (GPS_RAW_INT ft sats) = True"
| "is_gps_raw_int (GLOBAL_POSITION_INT m) = False"
| "is_gps_raw_int OTHER_MESSAGE = False"

text \<open>\<^verbatim>\<open>get_current_gps()\<close>: the stored dictionary if there is one and it is less than
  5.0 seconds old, otherwise \<^verbatim>\<open>None\<close>.\<close>

definition get_current_gps :: "mavlink_handler \<Rightarrow> real \<Rightarrow> gps_data option" where
  "get_current_gps h now =
     (case last_gps_data h of
        None \<Rightarrow> None
      | Some d \<Rightarrow> if now - g_timestamp d < 5 then Some d else None)"

text \<open>The test of the capture loop in \<^verbatim>\<open>main_controller.py\<close>
  (\<^verbatim>\<open>if not gps_data or gps_data.get('fix_quality', 0) < 3: ... continue\<close>): the loop goes
  on to capture a frame only when this holds.\<close>

definition main_loop_gps_ready :: "gps_data option \<Rightarrow> bool" where
  "main_loop_gps_ready gps = (case gps of None \<Rightarrow> False | Some d \<Rightarrow> \<not> g_fix_quality d < 3)"

section \<open>Symbol detector: \<^verbatim>\<open>vision_module/symbol_detector.py\<close>\<close>

text \<open>What OpenCV reports for one contour: \<^verbatim>\<open>cv2.contourArea(contour)\<close> and
  \<^verbatim>\<open>cv2.boundingRect(contour)\<close>, the rectangle as \<open>(x, y, w, h)\<close>.\<close>

record contour =
  contourArea :: real
  boundingRect :: "int \<times> int \<times> int \<times> int"

record detector_config =
  min_symbol_area :: real
  max_symbol_area :: real

text \<open>The defaults of \<^verbatim>\<open>config.get('min_symbol_area', 2000)\<close> and
  \<^verbatim>\<open>config.get('max_symbol_area', 100000)\<close>.\<close>

definition default_detection_config :: detector_config where
  "default_detection_config = \<lparr>min_symbol_area = 2000, max_symbol_area = 100000\<rparr>"

record detection =
  d_bbox :: "int \<times> int \<times> int \<times> int"
  d_area :: real
  d_aspect_ratio :: real
  d_fill_ratio :: real
  d_confidence :: real

definition calculate_detection_confidence :: "real \<Rightarrow> real \<Rightarrow> real \<Rightarrow> real" where
  "calculate_detection_confidence area aspect_ratio fill_ratio =
     (let area_score = min (area / 20000) 1;
          ratio_score = (if aspect_ratio \<le> 2 then 1 - \<bar>1 - aspect_ratio\<bar> else 1 / 2);
          fill_score = (if fill_ratio \<le> 6 / 10 then fill_ratio else 1 - fill_ratio)
      in (area_score + ratio_score + fill_score) / 3)"

text \<open>The \<^verbatim>\<open>for contour in contours\<close> loop of \<^verbatim>\<open>analyze_contours\<close>, with the list
  \<^verbatim>\<open>detections\<close> built so far as accumulator. \<^verbatim>\<open>continue\<close> is the recursive call with
  the accumulator unchanged. The two divisions raise \<^verbatim>\<open>ZeroDivisionError\<close> on a zero
  divisor, which ends the loop.\<close>

fun analyze_loop :: "detector_config \<Rightarrow> contour list \<Rightarrow> detection list \<Rightarrow> py_error + detection list" where
  "analyze_loop cfg [] detections = Inr detections"
| "analyze_loop cfg (c # rest) detections =
     (let area = contourArea c in
      if area < min_symbol_area cfg \<or> area > max_symbol_area cfg then analyze_loop cfg rest detections
      else
        (case boundingRect c of (x, y, w, h) \<Rightarrow>
           if h = 0 then Inl ZeroDivisionError
           else
             (let aspect_ratio = real_of_int w / real_of_int h in
              if aspect_ratio < 4 / 10 \<or> aspect_ratio > 25 / 10 then analyze_loop cfg rest detections
              else
                (let contour_area = contourArea c; bbox_area = w * h in
                 if bbox_area = 0 then Inl ZeroDivisionError
                 else
                   (let fill_ratio = contour_area / real_of_int bbox_area in
                    if fill_ratio < 1 / 10 \<or> fill_ratio > 9 / 10 then analyze_loop cfg rest detections
                    else analyze_loop cfg rest (detections @
                      [\<lparr>d_bbox = (x, y, w, h), d_area = area, d_aspect_ratio = aspect_ratio,
                        d_fill_ratio = fill_ratio,
                        d_confidence = calculate_detection_confidence area aspect_ratio fill_ratio\<rparr>]))))))"

text \<open>\<^verbatim>\<open>list.sort(key=..., reverse=True)\<close>. Python reverses the list, sorts it with its
  stable sort and reverses the result; \<open>sort_key\<close> is a stable insertion sort.\<close>

definition py_sort_reverse :: "('a \<Rightarrow> real) \<Rightarrow> 'a list \<Rightarrow> 'a list" where
  "py_sort_reverse key xs = rev (sort_key key (rev xs))"

definition analyze_contours :: "detector_config \<Rightarrow> contour list \<Rightarrow> py_error + detection list" where
  "analyze_contours cfg contours =
     (case analyze_loop cfg contours [] of
        Inl e \<Rightarrow> Inl e
      | Inr detections \<Rightarrow> Inr (py_sort_reverse d_confidence detections))"

text \<open>\<^verbatim>\<open>detect_symbols(frame)\<close>. Its argument is what the OpenCV stages
  (\<^verbatim>\<open>preprocess_for_detection\<close>, \<^verbatim>\<open>find_symbol_contours\<close>) produce for the frame: the
  contours, or an exception. Every exception ends in \<^verbatim>\<open>return []\<close>.\<close>

definition detect_symbols :: "detector_config \<Rightarrow> py_error + contour list \<Rightarrow> detection list" where
  "detect_symbols cfg found =
     (case found of
        Inl e \<Rightarrow> []
      | Inr contours \<Rightarrow>
          (case analyze_contours cfg contours of Inl e \<Rightarrow> [] | Inr detections \<Rightarrow> detections))"

text \<open>The bounds a candidate region has to satisfy.\<close>

definition candidate_ok :: "detector_config \<Rightarrow> detection \<Rightarrow> bool" where
  "candidate_ok cfg d =
     (min_symbol_area cfg \<le> d_area d \<and> d_area d \<le> max_symbol_area cfg
      \<and> 4 / 10 \<le> d_aspect_ratio d \<and> d_aspect_ratio d \<le> 25 / 10
      \<and> 1 / 10 \<le> d_fill_ratio d \<and> d_fill_ratio d \<le> 9 / 10
      \<and> 0 \<le> d_confidence d \<and> d_confidence d \<le> 1)"

section \<open>Symbol recogniser: \<^verbatim>\<open>vision_module/ocr_processor.py\<close>\<close>

subsection \<open>The alphabet table\<close>

text \<open>The 36 letters of \<^verbatim>\<open>armenian_symbols\<close>, as code points: U+0531 (1329) to U+0554
  (1364), in the order of the source.\<close>

definition armenian_symbols :: "nat list" where
  "armenian_symbols =
     [1329, 1330, 1331, 1332, 1333, 1334, 1335, 1336, 1337,
      1338, 1339, 1340, 1341, 1342, 1343, 1344, 1345, 1346,
      1347, 1348, 1349, 1350, 1351, 1352, 1353, 1354, 1355,
      1356, 1357, 1358, 1359, 1360, 1361, 1362, 1363, 1364]"

text \<open>The dictionary comprehension \<^verbatim>\<open>{symbol: idx for idx, symbol in enumerate(...)}\<close>:
  the entries are stored one after the other, a later one replacing an earlier one
  with the same key.\<close>

fun dict_of_enumerate :: "int \<Rightarrow> 'a list \<Rightarrow> ('a \<rightharpoonup> int) \<Rightarrow> ('a \<rightharpoonup> int)" where
  "dict_of_enumerate idx [] m = m"
| "dict_of_enumerate idx (symbol # rest) m = dict_of_enumerate (idx + 1) rest (m(symbol \<mapsto> idx))"

definition symbol_to_id :: "nat \<rightharpoonup> int" where
  "symbol_to_id = dict_of_enumerate 0 armenian_symbols Map.empty"

subsection \<open>\<^verbatim>\<open>get_symbol_id\<close>\<close>

text \<open>\<^verbatim>\<open>s[0]\<close> raises \<^verbatim>\<open>IndexError\<close> on the empty string.\<close>

fun py_first :: "pystr \<Rightarrow> py_error + nat" where
  "py_first [] = Inl IndexError"
| "py_first (c # s) = Inr c"

text \<open>\<^verbatim>\<open>first_symbol\<close> is a character or \<^verbatim>\<open>None\<close>; \<^verbatim>\<open>dict.get\<close> answers \<^verbatim>\<open>None\<close> for a
  key that is not in the dictionary, \<^verbatim>\<open>None\<close> included.\<close>

definition get_symbol_id :: "pystr \<Rightarrow> py_error + int option" where
  "get_symbol_id symbol_text =
     (if symbol_text = [] then Inr None
      else
        (case (if symbol_text \<noteq> [] then map_sum id Some (py_first symbol_text) else Inr None) of
           Inl e \<Rightarrow> Inl e
         | Inr first_symbol \<Rightarrow>
             Inr (case first_symbol of None \<Rightarrow> None | Some c \<Rightarrow> symbol_to_id c)))"

subsection \<open>\<^verbatim>\<open>clean_armenian_text\<close>\<close>

text \<open>The characters that \<^verbatim>\<open>str.strip()\<close> and \<^verbatim>\<open>str.split()\<close> treat as whitespace
  (\<^verbatim>\<open>str.isspace\<close>).\<close>

definition is_space :: "nat \<Rightarrow> bool" where
  "is_space c =
     ((9 \<le> c \<and> c \<le> 13) \<or> (28 \<le> c \<and> c \<le> 32) \<or> c = 133 \<or> c = 160 \<or> c = 5760
      \<or> (8192 \<le> c \<and> c \<le> 8202) \<or> c = 8232 \<or> c = 8233 \<or> c = 8239 \<or> c = 8287
      \<or> c = 12288)"

definition py_strip :: "pystr \<Rightarrow> pystr" where
  "py_strip s = rev (dropWhile is_space (rev (dropWhile is_space s)))"

text \<open>\<^verbatim>\<open>s.replace(old, new)\<close> for a one-character \<^verbatim>\<open>old\<close>.\<close>

definition py_replace_char :: "nat \<Rightarrow> pystr \<Rightarrow> pystr \<Rightarrow> pystr" where
  "py_replace_char old new s = concat (map (\<lambda>c. if c = old then new else [c]) s)"

text \<open>\<^verbatim>\<open>s.split()\<close>: the maximal runs of characters that are not whitespace. The second
  argument is the run being read.\<close>

fun py_split_from :: "pystr \<Rightarrow> pystr \<Rightarrow> pystr list" where
  "py_split_from [] cur = (if cur = [] then [] else [cur])"
| "py_split_from (c # s) cur =
     (if is_space c then (if cur = [] then py_split_from s [] else cur # py_split_from s [])
      else py_split_from s (cur @ [c]))"

definition py_split :: "pystr \<Rightarrow> pystr list" where
  "py_split s = py_split_from s []"

fun py_join :: "pystr \<Rightarrow> pystr list \<Rightarrow> pystr" where
  "py_join sep [] = []"
| "py_join sep [w] = w"
| "py_join sep (w # v # ws) = w @ sep @ py_join sep (v # ws)"

text \<open>The test \<^verbatim>\<open>'\u0530' <= char <= '\u058F'\<close> on a one-character string compares code
  points: 0x0530 = 1328, 0x058F = 1423.\<close>

definition is_armenian :: "nat \<Rightarrow> bool" where
  "is_armenian char = (1328 \<le> char \<and> char \<le> 1423)"

definition clean_armenian_text :: "pystr \<Rightarrow> pystr" where
  "clean_armenian_text txt =
     (if txt = [] then []
      else
        (let cleaned = py_replace_char 13 [] (py_replace_char 10 [32] (py_strip txt));
             cleaned = py_join [32] (py_split cleaned);
             armenian_chars = filter is_armenian cleaned
         in py_strip armenian_chars))"

subsection \<open>\<^verbatim>\<open>recognize_armenian_text\<close>\<close>

text \<open>An image array by its shape: a 2-D array has no channel axis. \<^verbatim>\<open>image.size\<close> is the
  product of the axes.\<close>

record image =
  im_height :: nat
  im_width :: nat
  im_channels :: "nat option"

definition image_size :: "image \<Rightarrow> nat" where
  "image_size im = im_height im * im_width im * (case im_channels im of None \<Rightarrow> 1 | Some c \<Rightarrow> c)"

text \<open>An entry of \<^verbatim>\<open>data['conf']\<close>: one that \<^verbatim>\<open>int()\<close> converts, or one it rejects with
  \<^verbatim>\<open>ValueError\<close>.\<close>

datatype conf_cell = Conf int | Conf_Rejected

fun py_int :: "conf_cell \<Rightarrow> py_error + int" where
  "py_int (Conf n) = Inr n"
| "py_int Conf_Rejected = Inl ValueError"

text \<open>The OCR engine, when it is installed: \<^verbatim>\<open>pytesseract.image_to_string\<close> and the
  \<^verbatim>\<open>conf\<close> column of \<^verbatim>\<open>pytesseract.image_to_data\<close>, for an image and the pair
  \<open>(psm, dpi)\<close> of the configuration string. Either call may raise.\<close>

record tesseract =
  image_to_string :: "image \<Rightarrow> nat \<times> nat \<Rightarrow> py_error + pystr"
  image_to_data :: "image \<Rightarrow> nat \<times> nat \<Rightarrow> py_error + conf_cell list"

text \<open>What surrounds the recogniser: \<open>pytesseract\<close> is \<open>None\<close> when the import
  failed; \<open>preprocess_for_ocr\<close> is the outcome of the chain of OpenCV calls of that
  name (grey scale, four-fold resize, CLAHE, Otsu threshold, closing) on an image.\<close>

record ocr_env =
  pytesseract :: "tesseract option"
  preprocess_for_ocr :: "image \<Rightarrow> py_error + image"

text \<open>The integer square root, for \<^verbatim>\<open>int(np.sqrt(width * height) / 20)\<close>, which is
  \<open>\<lfloor>\<surd>n\<rfloor> div 20\<close>.\<close>

fun isqrt_below :: "nat \<Rightarrow> nat \<Rightarrow> nat" where
  "isqrt_below n 0 = 0"
| "isqrt_below n (Suc k) = (if Suc k * Suc k \<le> n then Suc k else isqrt_below n k)"

definition get_dynamic_config :: "image \<Rightarrow> nat \<times> nat" where
  "get_dynamic_config processed_image =
     (let height = im_height processed_image; width = im_width processed_image;
          psm = (if width * height > 100000 then 6 else if width * height > 20000 then 8 else 10);
          dpi = min 300 (max 150 (isqrt_below (width * height) (width * height) div 20))
      in (psm, dpi))"

record ocr_result =
  res_text :: pystr
  res_confidence :: real
  res_symbol_id :: "int option"
  res_raw_text :: "pystr option"
  res_word_confidences :: "int list option"
  res_error :: "py_error option"

text \<open>The result of the two early returns: only the keys \<^verbatim>\<open>text\<close>, \<^verbatim>\<open>confidence\<close> and
  \<^verbatim>\<open>symbol_id\<close>.\<close>

definition empty_result :: ocr_result where
  "empty_result = \<lparr>res_text = [], res_confidence = 0, res_symbol_id = None,
     res_raw_text = None, res_word_confidences = None, res_error = None\<rparr>"

text \<open>\<^verbatim>\<open>[int(conf) for conf in data['conf'] if int(conf) > 0]\<close>\<close>

fun positive_confidences :: "conf_cell list \<Rightarrow> py_error + int list" where
  "positive_confidences [] = Inr []"
| "positive_confidences (conf # rest) =
     (case py_int conf of
        Inl e \<Rightarrow> Inl e
      | Inr n \<Rightarrow>
          (case positive_confidences rest of
             Inl e \<Rightarrow> Inl e
           | Inr ns \<Rightarrow> Inr (if n > 0 then n # ns else ns)))"

text \<open>The body of the \<^verbatim>\<open>try\<close> block.\<close>

definition recognize_body :: "ocr_env \<Rightarrow> image option \<Rightarrow> py_error + ocr_result" where
  "recognize_body env image_region =
     (case pytesseract env of
        None \<Rightarrow> Inr empty_result
      | Some engine \<Rightarrow>
          (case image_region of
             None \<Rightarrow> Inr empty_result
           | Some region \<Rightarrow>
               if image_size region = 0 then Inr empty_result
               else
                 (case preprocess_for_ocr env region of
                    Inl e \<Rightarrow> Inl e
                  | Inr processed \<Rightarrow>
                      (let config = get_dynamic_config processed in
                       case image_to_string engine processed config of
                         Inl e \<Rightarrow> Inl e
                       | Inr txt \<Rightarrow>
                           (case image_to_data engine processed config of
                              Inl e \<Rightarrow> Inl e
                            | Inr conf_column \<Rightarrow>
                                (case positive_confidences conf_column of
                                   Inl e \<Rightarrow> Inl e
                                 | Inr confidences \<Rightarrow>
                                     (let avg_confidence =
                                            (if confidences = [] then 0
                                             else real_of_int (sum_list confidences)
                                                    / real (length confidences));
                                          cleaned_text = clean_armenian_text txt
                                      in case get_symbol_id cleaned_text of
                                           Inl e \<Rightarrow> Inl e
                                         | Inr symbol_id \<Rightarrow>
                                             Inr \<lparr>res_text = cleaned_text,
                                                  res_confidence = avg_confidence / 100,
                                                  res_symbol_id = symbol_id,
                                                  res_raw_text = Some txt,
                                                  res_word_confidences = Some confidences,
                                                  res_error = None\<rparr>)))))))"

text \<open>\<^verbatim>\<open>recognize_armenian_text\<close>: the \<^verbatim>\<open>try\<close> block with its \<^verbatim>\<open>except Exception\<close>
  handler, which returns a result with the key \<^verbatim>\<open>error\<close>.\<close>

definition recognize_armenian_text :: "ocr_env \<Rightarrow> image option \<Rightarrow> py_error + ocr_result" where
  "recognize_armenian_text env image_region =
     (case recognize_body env image_region of
        Inl e \<Rightarrow> Inr \<lparr>res_text = [], res_confidence = 0, res_symbol_id = None,
                     res_raw_text = None, res_word_confidences = None, res_error = Some e\<rparr>
      | Inr result \<Rightarrow> Inr result)"

section \<open>GPS data: \<^verbatim>\<open>flight_controller_module/gps_data.py\<close>\<close>

subsection \<open>Doubles\<close>

text \<open>
  \<^verbatim>\<open>format_for_competition\<close> is about rounding, so here the rounding of Python's
  \<^verbatim>\<open>float\<close> (IEEE 754 binary64) is written out. A finite double is the rational number
  it denotes: \<open>0\<close>, or \<open>m * 2^e\<close> with \<open>2^52 \<le> \<bar>m\<bar> < 2^53\<close> and
  \<open>-1074 \<le> e \<le> 971\<close>, or a subnormal \<open>m * 2^-1074\<close> with \<open>\<bar>m\<bar> < 2^52\<close>. An
  arithmetic operation computes the exact result and rounds it to the nearest double,
  a tie going to the double with the even \<open>m\<close>; a result of magnitude \<open>2^1024\<close> or
  more is an infinity. Not-a-number and infinite inputs are outside the model.
\<close>

text \<open>The nearest integer, a tie going to the even one: Python's \<^verbatim>\<open>round(x)\<close> on a finite
  \<^verbatim>\<open>float\<close>.\<close>

definition round_half_even :: "rat \<Rightarrow> int" where
  "round_half_even x =
     (let n = \<lfloor>x\<rfloor>; d = x - of_int n
      in if d < 1 / 2 then n else if 1 / 2 < d then n + 1 else if even n then n else n + 1)"

text \<open>For \<open>x \<noteq> 0\<close>, the integer \<open>e\<close> with \<open>2^e \<le> \<bar>x\<bar> < 2^(e+1)\<close>, from the bit lengths
  of numerator and denominator.\<close>

definition ilog2 :: "rat \<Rightarrow> int" where
  "ilog2 x =
     (let (p, q) = quotient_of \<bar>x\<bar>; e = bitlen p - bitlen q
      in if (2 powi e) * of_int q \<le> (of_int p :: rat) then e else e - 1)"

text \<open>The distance between neighbouring doubles in the binade of \<open>x\<close>; below
  \<open>2^-1022\<close> (the subnormal range) it is \<open>2^-1074\<close>.\<close>

definition ulp :: "rat \<Rightarrow> rat" where
  "ulp x = 2 powi (max (ilog2 x) (- 1022) - 52)"

definition round_to_double :: "rat \<Rightarrow> rat" where
  "round_to_double x = (if x = 0 then 0 else of_int (round_half_even (x / ulp x)) * ulp x)"

definition is_double :: "rat \<Rightarrow> bool" where
  "is_double x = (round_to_double x = x \<and> \<bar>x\<bar> < 2 ^ 1024)"

text \<open>The result of a \<^verbatim>\<open>float\<close> operation whose exact value is \<open>x\<close>: a finite double, or
  \<open>None\<close> for an infinity.\<close>

definition float_result :: "rat \<Rightarrow> rat option" where
  "float_result x = (let y = round_to_double x in if \<bar>y\<bar> < 2 ^ 1024 then Some y else None)"

text \<open>\<^verbatim>\<open>round(x)\<close> for the result of a \<^verbatim>\<open>float\<close> operation: on an infinity it raises
  \<^verbatim>\<open>OverflowError\<close>.\<close>

definition py_round :: "rat option \<Rightarrow> py_error + int" where
  "py_round r = (case r of None \<Rightarrow> Inl OverflowError | Some x \<Rightarrow> Inr (round_half_even x))"

subsection \<open>\<^verbatim>\<open>format_for_competition\<close>\<close>

text \<open>\<^verbatim>\<open>int(round(lat * 1e7))\<close>, then the same for \<^verbatim>\<open>lon\<close>; \<^verbatim>\<open>int\<close> of an \<^verbatim>\<open>int\<close> is
  that \<^verbatim>\<open>int\<close>.\<close>

definition format_for_competition :: "rat \<Rightarrow> rat \<Rightarrow> py_error + int \<times> int" where
  "format_for_competition lat lon =
     (case py_round (float_result (lat * 10000000)) of
        Inl e \<Rightarrow> Inl e
      | Inr lat_e7 \<Rightarrow>
          (case py_round (float_result (lon * 10000000)) of
             Inl e \<Rightarrow> Inl e
           | Inr lon_e7 \<Rightarrow> Inr (lat_e7, lon_e7)))"

subsection \<open>The expressions of the round-trip property\<close>

text \<open>\<^verbatim>\<open>n / 1e7\<close> for an \<^verbatim>\<open>int\<close> \<open>n\<close>: \<open>n\<close> is converted to a double and the quotient is
  rounded. (The values here stay far from the overflow range.)\<close>

definition int_div_1e7 :: "int \<Rightarrow> rat" where
  "int_div_1e7 n = round_to_double (round_to_double (of_int n) / 10000000)"

text \<open>\<^verbatim>\<open>round(x, ndigits)\<close> for a finite double \<open>x\<close> and \<open>ndigits \<ge> 0\<close>: the decimal
  with \<open>ndigits\<close> places nearest to the exact value of \<open>x\<close> (a tie to the even last
  digit), converted back to the nearest double.\<close>

definition py_round_ndigits :: "rat \<Rightarrow> nat \<Rightarrow> rat" where
  "py_round_ndigits x ndigits =
     round_to_double (of_int (round_half_even (x * 10 ^ ndigits)) / 10 ^ ndigits)"

section \<open>Detection log: \<^verbatim>\<open>data_module/excel_logger.py\<close>\<close>

text \<open>A row of the workbook (the dictionary \<^verbatim>\<open>detection_data\<close>) and an entry of the
  coordinate file (the dictionary \<^verbatim>\<open>competition_entry\<close>, written as the line
  \<^verbatim>\<open>symbol_id,lat_e7,lon_e7\<close>).\<close>

record detection_row =
  row_Timestamp :: pystr
  row_Symbol :: pystr
  row_Symbol_ID :: "int option"
  row_Confidence :: rat
  row_GPS_Lat :: rat
  row_GPS_Lon :: rat
  row_GPS_Alt :: rat
  row_Image_Path :: pystr
  row_Detection_X :: int
  row_Detection_Y :: int
  row_Detection_W :: int
  row_Detection_H :: int

record competition_entry =
  e_symbol_id :: int
  e_lat_e7 :: int
  e_lon_e7 :: int

text \<open>The arguments of one call of \<^verbatim>\<open>log_detection\<close>. In place of \<^verbatim>\<open>timestamp\<close> stands
  what the standard library makes of it in
  \<^verbatim>\<open>datetime.fromtimestamp(timestamp).strftime('%Y-%m-%d %H:%M:%S.%f')[:-3]\<close>: the text, or
  the exception raised for a timestamp out of range.\<close>

record log_call =
  c_symbol :: pystr
  c_confidence :: rat
  c_gps_lat :: rat
  c_gps_lon :: rat
  c_gps_alt :: rat
  c_timestamp_text :: "py_error + pystr"
  c_image_path :: pystr
  c_detection_bbox :: "int \<times> int \<times> int \<times> int"
  c_symbol_id :: "int option"

text \<open>Whether the file operations of a call succeed: reading the workbook back,
  writing the workbook, appending to the coordinate file. A failed write leaves the
  file as it was.\<close>

record file_io =
  excel_readable :: bool
  excel_writable :: bool
  csv_writable :: bool

definition io_ok :: file_io where
  "io_ok = \<lparr>excel_readable = True, excel_writable = True, csv_writable = True\<rparr>"

text \<open>The lines the logger writes to its own log.\<close>

datatype log_event =
    Logged_Detection
  | Error_Logging_Detection py_error
  | Flushed_To_Excel nat
  | Error_Flushing_Excel
  | Flushed_To_CSV nat
  | Error_Flushing_CSV
  | Logger_Closed

text \<open>The logger: the two buffers, the rows of the workbook \<^verbatim>\<open>current_flight_file\<close>, the
  lines of \<^verbatim>\<open>objects-coordinates.csv\<close>, and the log lines written so far.\<close>

record excel_logger =
  data_buffer :: "detection_row list"
  csv_buffer :: "competition_entry list"
  flight_file :: "detection_row list"
  competition_csv :: "competition_entry list"
  log_lines :: "log_event list"

text \<open>After \<^verbatim>\<open>__init__\<close>: empty buffers, a workbook with the header only, an empty
  coordinate file.\<close>

definition new_logger :: excel_logger where
  "new_logger = \<lparr>data_buffer = [], csv_buffer = [], flight_file = [], competition_csv = [],
     log_lines = []\<rparr>"

definition flush_to_excel :: "excel_logger \<Rightarrow> file_io \<Rightarrow> excel_logger" where
  "flush_to_excel L io =
     (if data_buffer L = [] then L
      else
        (let existing_df = (if excel_readable io then flight_file L else []);
             combined_df = existing_df @ data_buffer L
         in if excel_writable io
            then L\<lparr>flight_file := combined_df,
                   log_lines := log_lines L @ [Flushed_To_Excel (length (data_buffer L))],
                   data_buffer := []\<rparr>
            else L\<lparr>log_lines := log_lines L @ [Error_Flushing_Excel]\<rparr>))"

definition flush_to_competition_csv :: "excel_logger \<Rightarrow> file_io \<Rightarrow> excel_logger" where
  "flush_to_competition_csv L io =
     (if csv_buffer L = [] then L
      else if csv_writable io
        then L\<lparr>competition_csv := competition_csv L @ csv_buffer L,
               log_lines := log_lines L @ [Flushed_To_CSV (length (csv_buffer L))],
               csv_buffer := []\<rparr>
        else L\<lparr>log_lines := log_lines L @ [Error_Flushing_CSV]\<rparr>)"

text \<open>The row that a call appends, given the text of its timestamp.\<close>

definition detection_data :: "log_call \<Rightarrow> pystr \<Rightarrow> detection_row" where
  "detection_data call ts =
     (case c_detection_bbox call of (x, y, w, h) \<Rightarrow>
        \<lparr>row_Timestamp = ts,
         row_Symbol = c_symbol call,
         row_Symbol_ID = c_symbol_id call,
         row_Confidence = py_round_ndigits (c_confidence call) 3,
         row_GPS_Lat = py_round_ndigits (c_gps_lat call) 8,
         row_GPS_Lon = py_round_ndigits (c_gps_lon call) 8,
         row_GPS_Alt = py_round_ndigits (c_gps_alt call) 2,
         row_Image_Path = c_image_path call,
         row_Detection_X = x, row_Detection_Y = y, row_Detection_W = w, row_Detection_H = h\<rparr>)"

text \<open>\<^verbatim>\<open>log_detection\<close>. An exception inside the \<^verbatim>\<open>try\<close> block is logged and ends the
  call: one raised by the timestamp leaves the buffers as they were, one raised by
  \<^verbatim>\<open>format_for_competition\<close> comes after the row was appended and skips the flush.\<close>

definition log_detection :: "excel_logger \<Rightarrow> log_call \<Rightarrow> file_io \<Rightarrow> excel_logger" where
  "log_detection L call io =
     (case c_timestamp_text call of
        Inl e \<Rightarrow> L\<lparr>log_lines := log_lines L @ [Error_Logging_Detection e]\<rparr>
      | Inr ts \<Rightarrow>
          (let L1 = L\<lparr>data_buffer := data_buffer L @ [detection_data call ts]\<rparr> in
           case (case c_symbol_id call of
                   None \<Rightarrow> Inr L1
                 | Some symbol_id \<Rightarrow>
                     (case format_for_competition (c_gps_lat call) (c_gps_lon call) of
                        Inl e \<Rightarrow> Inl e
                      | Inr (lat_e7, lon_e7) \<Rightarrow>
                          Inr (L1\<lparr>csv_buffer := csv_buffer L1 @
                            [\<lparr>e_symbol_id = symbol_id, e_lat_e7 = lat_e7, e_lon_e7 = lon_e7\<rparr>]\<rparr>))) of
             Inl e \<Rightarrow> L1\<lparr>log_lines := log_lines L1 @ [Error_Logging_Detection e]\<rparr>
           | Inr L2 \<Rightarrow>
               (let L3 = (if length (data_buffer L2) \<ge> 5
                          then flush_to_competition_csv (flush_to_excel L2 io) io
                          else L2)
                in L3\<lparr>log_lines := log_lines L3 @ [Logged_Detection]\<rparr>)))"

text \<open>\<^verbatim>\<open>close\<close>: both flushes; \<^verbatim>\<open>create_summary_report\<close> reads the workbooks and writes
  a file of its own, which is not part of the state here.\<close>

definition close_logger :: "excel_logger \<Rightarrow> file_io \<Rightarrow> excel_logger" where
  "close_logger L io =
     (let L1 = flush_to_excel L io; L2 = flush_to_competition_csv L1 io
      in L2\<lparr>log_lines := log_lines L2 @ [Logger_Closed]\<rparr>)"

text \<open>A sequence of calls, each with the outcome of its file operations.\<close>

fun log_detections :: "excel_logger \<Rightarrow> (log_call \<times> file_io) list \<Rightarrow> excel_logger" where
  "log_detections L [] = L"
| "log_detections L ((call, io) # rest) = log_detections (log_detection L call io) rest"

text \<open>A call is successful when nothing in it raises: the timestamp has a text, and if
  there is a \<^verbatim>\<open>symbol_id\<close> the coordinates have an e7 encoding. Its row and its entry
  of the coordinate file (none without a \<^verbatim>\<open>symbol_id\<close>):\<close>

definition call_succeeds :: "log_call \<Rightarrow> bool" where
  "call_succeeds call =
     ((\<exists>ts. c_timestamp_text call = Inr ts)
      \<and> (c_symbol_id call = None
          \<or> (\<exists>r. format_for_competition (c_gps_lat call) (c_gps_lon call) = Inr r)))"

definition row_of :: "log_call \<Rightarrow> detection_row" where
  "row_of call = detection_data call (case c_timestamp_text call of Inr ts \<Rightarrow> ts | Inl e \<Rightarrow> [])"

definition entries_of :: "log_call \<Rightarrow> competition_entry list" where
  "entries_of call =
     (case c_symbol_id call of
        None \<Rightarrow> []
      | Some symbol_id \<Rightarrow>
          (case format_for_competition (c_gps_lat call) (c_gps_lon call) of
             Inl e \<Rightarrow> []
           | Inr (lat_e7, lon_e7) \<Rightarrow>
               [\<lparr>e_symbol_id = symbol_id, e_lat_e7 = lat_e7, e_lon_e7 = lon_e7\<rparr>]))"

text \<open>The number of flushes of the detection buffer, read off the log.\<close>

fun is_excel_flush :: "log_event \<Rightarrow> bool" where
  "is_excel_flush (Flushed_To_Excel n) = True"
| "is_excel_flush ev = False"

definition excel_flushes :: "excel_logger \<Rightarrow> nat" where
  "excel_flushes L = length (filter is_excel_flush (log_lines L))"

section \<open>Sample inputs\<close>

text \<open>Concrete inputs at which the theorems below are instantiated.\<close>

definition sample_position :: global_position_int where
  "sample_position = \<lparr>msg_lat = 401811111, msg_lon = 445135555, msg_alt = 1085000,
     msg_relative_alt = 85000, msg_vx = 0, msg_vy = 0, msg_vz = 0, msg_hdg = 9000\<rparr>"

text \<open>A handler that received a position at time 100 and then, at time 100.5, a
  \<^verbatim>\<open>GPS_RAW_INT\<close> message with \<^verbatim>\<open>fix_type = 2\<close>.\<close>

definition low_fix_handler :: mavlink_handler where
  "low_fix_handler = process_messages init_handler
     [(GLOBAL_POSITION_INT sample_position, 100), (GPS_RAW_INT (Some 2) (Some 4), 100.5)]"

definition square_4000 :: contour where
  "square_4000 = \<lparr>contourArea = 4000, boundingRect = (10, 20, 76, 76)\<rparr>"

definition small_blob :: contour where
  "small_blob = \<lparr>contourArea = 150, boundingRect = (0, 0, 20, 15)\<rparr>"

definition half_filled_a :: contour where
  "half_filled_a = \<lparr>contourArea = 5000, boundingRect = (200, 40, 100, 100)\<rparr>"

definition half_filled_b :: contour where
  "half_filled_b = \<lparr>contourArea = 5000, boundingRect = (300, 300, 100, 100)\<rparr>"

definition sample_contours :: "contour list" where
  "sample_contours = [small_blob, square_4000, half_filled_a, half_filled_b]"

definition mixed_text :: pystr where
  "mixed_text = [32, 10, 65, 1329, 46, 32, 32, 1344, 13, 10, 1417, 49, 1072, 10]"

definition no_engine :: ocr_env where
  "no_engine = \<lparr>pytesseract = None, preprocess_for_ocr = (\<lambda>im. Inr im)\<rparr>"

text \<open>An engine that reads the two letters U+0540 U+0531 followed by a line feed, with
  the confidences -1, 96 and 88, and an engine whose second call raises.\<close>

definition reading_engine :: ocr_env where
  "reading_engine =
     \<lparr>pytesseract = Some
        \<lparr>image_to_string = (\<lambda>im config. Inr [1344, 1329, 10]),
         image_to_data = (\<lambda>im config. Inr [Conf (- 1), Conf 96, Conf 88])\<rparr>,
      preprocess_for_ocr = (\<lambda>im. Inr (im\<lparr>im_height := 4 * im_height im,
         im_width := 4 * im_width im, im_channels := None\<rparr>))\<rparr>"

definition failing_engine :: ocr_env where
  "failing_engine =
     \<lparr>pytesseract = Some
        \<lparr>image_to_string = (\<lambda>im config. Inr [1344, 1329, 10]),
         image_to_data = (\<lambda>im config. Inl EngineError)\<rparr>,
      preprocess_for_ocr = (\<lambda>im. Inr (im\<lparr>im_height := 4 * im_height im,
         im_width := 4 * im_width im, im_channels := None\<rparr>))\<rparr>"

definition empty_region :: image where
  "empty_region = \<lparr>im_height = 0, im_width = 40, im_channels = Some 3\<rparr>"

definition small_region :: image where
  "small_region = \<lparr>im_height = 30, im_width = 40, im_channels = Some 3\<rparr>"


text \<open>The doubles nearest to 40.18111115 and to 44.5135555.\<close>

definition double_40_18111115 :: rat where
  "double_40_18111115 = 5654988662577265 / 140737488355328"

definition double_44_5135555 :: rat where
  "double_44_5135555 = 6264725998835497 / 140737488355328"


text \<open>Two calls of \<^verbatim>\<open>log_detection\<close>, one with a \<^verbatim>\<open>symbol_id\<close> and one without, and a
  batch of five.\<close>

definition sample_call_a :: log_call where
  "sample_call_a =
     \<lparr>c_symbol = [1344], c_confidence = 7 / 8,
      c_gps_lat = double_40_18111115, c_gps_lon = double_44_5135555, c_gps_alt = 171 / 2,
      c_timestamp_text = Inr [49, 50, 58, 48, 48, 58, 48, 49, 46, 53, 48, 48],
      c_image_path = [], c_detection_bbox = (10, 20, 76, 76), c_symbol_id = Some 15\<rparr>"

definition sample_call_b :: log_call where
  "sample_call_b =
     \<lparr>c_symbol = [], c_confidence = 13 / 16,
      c_gps_lat = double_40_18111115, c_gps_lon = double_44_5135555, c_gps_alt = 171 / 2,
      c_timestamp_text = Inr [49, 50, 58, 48, 48, 58, 48, 50, 46, 48, 48, 48],
      c_image_path = [], c_detection_bbox = (200, 40, 100, 100), c_symbol_id = None\<rparr>"

definition five_calls :: "log_call list" where
  "five_calls = [sample_call_a, sample_call_b, sample_call_a, sample_call_b, sample_call_a]"

section \<open>Properties of the telemetry handler\<close>

lemma low_fix_handler_eq: "last_gps_data low_fix_handler = Some
        \<lparr>g_lat = 401811111 / 10000000, g_lon = 445135555 / 10000000, g_alt = 1085,
         g_relative_alt = 85, g_vx = 0, g_vy = 0, g_vz = 0, g_hdg = 90,
         g_timestamp = 100, g_fix_quality = 2, g_satellites_visible = Some 4\<rparr>"
  by (simp add: low_fix_handler_def init_handler_def sample_position_def)

text \<open>
  Claim C1, as stated, fails: a snapshot whose \<^verbatim>\<open>fix_quality\<close> is 2 and which is one
  second old is returned by \<^verbatim>\<open>get_current_gps\<close>; it is not reported absent.
\<close>

theorem get_current_gps_low_fix_counterexample:
  "get_current_gps low_fix_handler 101 = Some
        \<lparr>g_lat = 401811111 / 10000000, g_lon = 445135555 / 10000000, g_alt = 1085,
         g_relative_alt = 85, g_vx = 0, g_vy = 0, g_vz = 0, g_hdg = 90,
         g_timestamp = 100, g_fix_quality = 2, g_satellites_visible = Some 4\<rparr>"
  by (simp add: get_current_gps_def low_fix_handler_def init_handler_def sample_position_def)

text \<open>
  Claim C1, amended: \<^verbatim>\<open>get_current_gps\<close> reports the snapshot absent exactly when none
  is stored or the stored one is 5.0 seconds old or older, whatever its
  \<^verbatim>\<open>fix_quality\<close>; a snapshot less than 5.0 seconds old is returned as it is, also with
  \<^verbatim>\<open>fix_quality\<close> below 3. The test on \<^verbatim>\<open>fix_quality\<close> is made by the caller: the capture
  loop goes on only if a snapshot was returned and its \<^verbatim>\<open>fix_quality\<close> is at least 3.
\<close>

theorem get_current_gps_staleness_only:
  "(get_current_gps h now = None) =
     (last_gps_data h = None \<or> (\<exists>d. last_gps_data h = Some d \<and> 5 \<le> now - g_timestamp d))
   \<and> (\<forall>d. last_gps_data h = Some d \<and> now - g_timestamp d < 5 \<longrightarrow> get_current_gps h now = Some d)
   \<and> main_loop_gps_ready (get_current_gps h now) =
     (\<exists>d. last_gps_data h = Some d \<and> now - g_timestamp d < 5 \<and> 3 \<le> g_fix_quality d)"
  by (auto simp: get_current_gps_def main_loop_gps_ready_def split: option.splits)

theorem get_current_gps_staleness_only_witness:
  "get_current_gps low_fix_handler 105 = None
   \<and> get_current_gps low_fix_handler 104 \<noteq> None
   \<and> \<not> main_loop_gps_ready (get_current_gps low_fix_handler 104)"
  using get_current_gps_staleness_only [of low_fix_handler 105]
    get_current_gps_staleness_only [of low_fix_handler 104]
  by (auto simp: low_fix_handler_eq)

lemma process_message_keeps_fix:
  "\<not> is_gps_raw_int m \<Longrightarrow> last_gps_data h = Some d \<Longrightarrow> g_fix_quality d = 3 \<Longrightarrow>
   \<exists>d'. last_gps_data (process_message h m now) = Some d' \<and> g_fix_quality d' = 3"
  by (cases m) simp_all

lemma process_messages_keep_fix:
  "\<forall>x \<in> set msgs. \<not> is_gps_raw_int (fst x) \<Longrightarrow> last_gps_data h = Some d \<Longrightarrow> g_fix_quality d = 3 \<Longrightarrow>
   \<exists>d'. last_gps_data (process_messages h msgs) = Some d' \<and> g_fix_quality d' = 3"
proof (induction msgs arbitrary: h d)
  case Nil
  then show ?case by simp
next
  case (Cons x rest)
  obtain m now where x: "x = (m, now)" by (cases x)
  from Cons.prems x have "\<not> is_gps_raw_int m" by simp
  from process_message_keeps_fix [OF this Cons.prems(2,3)]
  obtain d1 where d1: "last_gps_data (process_message h m now) = Some d1" "g_fix_quality d1 = 3"
    by blast
  from Cons.prems(1) have "\<forall>x \<in> set rest. \<not> is_gps_raw_int (fst x)" by simp
  from Cons.IH [OF this d1] show ?case by (simp add: x)
qed

text \<open>
  Claim C10: a \<^verbatim>\<open>GLOBAL_POSITION_INT\<close> message replaces the stored snapshot by one
  whose \<^verbatim>\<open>fix_quality\<close> is 3, whatever was stored before. As long as no
  \<^verbatim>\<open>GPS_RAW_INT\<close> message follows, the stored snapshot keeps \<^verbatim>\<open>fix_quality = 3\<close> and
  so passes the test \<^verbatim>\<open>fix_quality < 3\<close> of the callers; a \<^verbatim>\<open>GPS_RAW_INT\<close> message
  with a \<^verbatim>\<open>fix_type\<close> then overwrites the field of that same snapshot.
\<close>

theorem position_message_sets_fix_quality_3:
  "(\<exists>d. last_gps_data (process_message h (GLOBAL_POSITION_INT m) now) = Some d
        \<and> g_fix_quality d = 3 \<and> g_timestamp d = now)
   \<and> (\<forall>later. (\<forall>x \<in> set later. \<not> is_gps_raw_int (fst x)) \<longrightarrow>
        (\<exists>d. last_gps_data (process_messages (process_message h (GLOBAL_POSITION_INT m) now) later) = Some d
           \<and> g_fix_quality d = 3 \<and> \<not> g_fix_quality d < 3
           \<and> (\<forall>ft sats t. last_gps_data (process_message
                  (process_messages (process_message h (GLOBAL_POSITION_INT m) now) later)
                  (GPS_RAW_INT (Some ft) sats) t)
                = Some (d\<lparr>g_fix_quality := ft,
                     g_satellites_visible := Some (case sats of None \<Rightarrow> 0 | Some n \<Rightarrow> n)\<rparr>))))"
proof (intro conjI allI impI)
  show "\<exists>d. last_gps_data (process_message h (GLOBAL_POSITION_INT m) now) = Some d
        \<and> g_fix_quality d = 3 \<and> g_timestamp d = now"
    by simp
next
  fix later :: "(mav_msg \<times> real) list"
  assume quiet: "\<forall>x \<in> set later. \<not> is_gps_raw_int (fst x)"
  let ?h1 = "process_message h (GLOBAL_POSITION_INT m) now"
  obtain d0 where d0: "last_gps_data ?h1 = Some d0" "g_fix_quality d0 = 3"
    by simp
  from process_messages_keep_fix [OF quiet d0]
  obtain d where d: "last_gps_data (process_messages ?h1 later) = Some d" "g_fix_quality d = 3"
    by blast
  then show "\<exists>d. last_gps_data (process_messages ?h1 later) = Some d
           \<and> g_fix_quality d = 3 \<and> \<not> g_fix_quality d < 3
           \<and> (\<forall>ft sats t. last_gps_data (process_message (process_messages ?h1 later)
                  (GPS_RAW_INT (Some ft) sats) t)
                = Some (d\<lparr>g_fix_quality := ft,
                     g_satellites_visible := Some (case sats of None \<Rightarrow> 0 | Some n \<Rightarrow> n)\<rparr>))"
    by simp
qed

theorem position_message_sets_fix_quality_3_witness:
  "(\<exists>d. last_gps_data (process_messages (process_message low_fix_handler
            (GLOBAL_POSITION_INT sample_position) 200)
            [(OTHER_MESSAGE, 201), (GLOBAL_POSITION_INT sample_position, 202)]) = Some d
      \<and> g_fix_quality d = 3)
   \<and> g_fix_quality (the (last_gps_data low_fix_handler)) = 2"
proof -
  have "\<forall>x \<in> set [(OTHER_MESSAGE, 201::real), (GLOBAL_POSITION_INT sample_position, 202)].
      \<not> is_gps_raw_int (fst x)"
    by simp
  with position_message_sets_fix_quality_3 [of low_fix_handler sample_position 200]
  show ?thesis by (simp add: low_fix_handler_eq) 
qed


section \<open>Properties of the symbol detector\<close>

lemma confidence_bounds:
  assumes "0 \<le> a" "4 / 10 \<le> r" "r \<le> 25 / 10" "1 / 10 \<le> f" "f \<le> 9 / 10"
  shows "0 \<le> calculate_detection_confidence a r f \<and> calculate_detection_confidence a r f \<le> 1"
proof -
  define A where "A = min (a / 20000) 1"
  define R where "R = (if r \<le> 2 then 1 - \<bar>1 - r\<bar> else 1 / 2)"
  define F where "F = (if f \<le> 6 / 10 then f else 1 - f)"
  have a: "0 \<le> A" "A \<le> 1" using assms(1) by (simp_all add: A_def)
  have r: "0 \<le> R" "R \<le> 1" using assms(2,3) by (simp_all add: R_def abs_if)
  have f: "0 \<le> F" "F \<le> 1" using assms(4,5) by (simp_all add: F_def)
  have "calculate_detection_confidence a r f = (A + R + F) / 3"
    by (simp add: calculate_detection_confidence_def Let_def A_def R_def F_def)
  with a r f show ?thesis by simp
qed

lemma analyze_loop_invariant:
  assumes "analyze_loop cfg cs acc = Inr ds"
    and "\<forall>c \<in> set cs. 0 \<le> contourArea c"
    and "\<forall>d \<in> set acc. candidate_ok cfg d"
  shows "\<forall>d \<in> set ds. candidate_ok cfg d"
  using assms
proof (induction cs arbitrary: acc)
  case Nil
  then show ?case by simp
next
  case (Cons c rest)
  obtain x y w h where bb: "boundingRect c = (x, y, w, h)" by (cases "boundingRect c")
  have nonneg: "0 \<le> contourArea c" and rest_nonneg: "\<forall>c \<in> set rest. 0 \<le> contourArea c"
    using Cons.prems(2) by simp_all
  let ?new = "\<lparr>d_bbox = (x, y, w, h), d_area = contourArea c,
       d_aspect_ratio = real_of_int w / real_of_int h,
       d_fill_ratio = contourArea c / real_of_int (w * h),
       d_confidence = calculate_detection_confidence (contourArea c)
          (real_of_int w / real_of_int h) (contourArea c / real_of_int (w * h))\<rparr>"
  from Cons.prems(1) bb consider
      (skip) "analyze_loop cfg rest acc = Inr ds"
    | (keep) "analyze_loop cfg rest (acc @ [?new]) = Inr ds"
        "\<not> (contourArea c < min_symbol_area cfg \<or> contourArea c > max_symbol_area cfg)"
        "\<not> (real_of_int w / real_of_int h < 4 / 10 \<or> real_of_int w / real_of_int h > 25 / 10)"
        "\<not> (contourArea c / real_of_int (w * h) < 1 / 10 \<or> contourArea c / real_of_int (w * h) > 9 / 10)"
    by (auto simp: Let_def split: if_splits)
  then show ?case
  proof cases
    case skip
    from Cons.IH [OF skip rest_nonneg Cons.prems(3)] show ?thesis .
  next
    case keep
    have "candidate_ok cfg ?new"
      using keep(2-4) confidence_bounds [of "contourArea c" "real_of_int w / real_of_int h"
          "contourArea c / real_of_int (w * h)"] nonneg
      by (simp add: candidate_ok_def not_less)
    with Cons.prems(3) have "\<forall>d \<in> set (acc @ [?new]). candidate_ok cfg d" by simp
    from Cons.IH [OF keep(1) rest_nonneg this] show ?thesis .
  qed
qed

lemma set_py_sort_reverse: "set (py_sort_reverse key xs) = set xs"
  by (simp add: py_sort_reverse_def)

lemma py_sort_reverse_descending:
  "sorted_wrt (\<lambda>a b. key a \<ge> key b) (py_sort_reverse key xs)"
proof -
  have "sorted (map key (sort_key key (rev xs)))" by simp
  then have "sorted_wrt (\<le>) (map key (sort_key key (rev xs)))" by simp
  then have "sorted_wrt (\<lambda>a b. key a \<le> key b) (sort_key key (rev xs))"
    by (simp add: sorted_wrt_map)
  then have "sorted_wrt (\<lambda>a b. key b \<le> key a) (rev (sort_key key (rev xs)))"
    by (simp add: sorted_wrt_rev)
  then show ?thesis by (simp add: py_sort_reverse_def)
qed

lemma py_sort_reverse_stable:
  "filter (\<lambda>x. key x = k) (py_sort_reverse key xs) = filter (\<lambda>x. key x = k) xs"
proof -
  have "filter (\<lambda>x. key x = k) (rev (sort_key key (rev xs)))
      = rev (filter (\<lambda>x. key x = k) (sort_key key (rev xs)))"
    by (simp add: rev_filter)
  also have "\<dots> = rev (filter (\<lambda>x. key x = k) (rev xs))"
    by (simp add: sort_key_stable)
  also have "\<dots> = filter (\<lambda>x. key x = k) xs"
    by (simp add: rev_filter)
  finally show ?thesis by (simp add: py_sort_reverse_def)
qed


lemma analyze_contours_single_accept:
  assumes "boundingRect c = (x, y, w, h)" and "h \<noteq> 0" and "w * h \<noteq> 0"
    and "min_symbol_area cfg \<le> contourArea c" and "contourArea c \<le> max_symbol_area cfg"
    and "4 / 10 \<le> real_of_int w / real_of_int h" and "real_of_int w / real_of_int h \<le> 25 / 10"
    and "1 / 10 \<le> contourArea c / real_of_int (w * h)"
    and "contourArea c / real_of_int (w * h) \<le> 9 / 10"
  shows "analyze_contours cfg [c] =
     Inr [\<lparr>d_bbox = (x, y, w, h), d_area = contourArea c,
           d_aspect_ratio = real_of_int w / real_of_int h,
           d_fill_ratio = contourArea c / real_of_int (w * h),
           d_confidence = calculate_detection_confidence (contourArea c)
             (real_of_int w / real_of_int h) (contourArea c / real_of_int (w * h))\<rparr>]"
proof -
  have "analyze_loop cfg [c] [] =
     Inr [\<lparr>d_bbox = (x, y, w, h), d_area = contourArea c,
           d_aspect_ratio = real_of_int w / real_of_int h,
           d_fill_ratio = contourArea c / real_of_int (w * h),
           d_confidence = calculate_detection_confidence (contourArea c)
             (real_of_int w / real_of_int h) (contourArea c / real_of_int (w * h))\<rparr>]"
    using assms by (simp add: Let_def not_less del: of_int_mult)
  then show ?thesis by (simp add: analyze_contours_def py_sort_reverse_def)
qed


lemma analyze_sample_contours:
  "analyze_contours default_detection_config sample_contours =
     Inr [\<lparr>d_bbox = (200, 40, 100, 100), d_area = 5000, d_aspect_ratio = 1,
           d_fill_ratio = 1 / 2, d_confidence = 7 / 12\<rparr>,
          \<lparr>d_bbox = (300, 300, 100, 100), d_area = 5000, d_aspect_ratio = 1,
           d_fill_ratio = 1 / 2, d_confidence = 7 / 12\<rparr>,
          \<lparr>d_bbox = (10, 20, 76, 76), d_area = 4000, d_aspect_ratio = 1,
           d_fill_ratio = 250 / 361, d_confidence = 907 / 1805\<rparr>]"
  by (simp add: analyze_contours_def sample_contours_def square_4000_def small_blob_def
      half_filled_a_def half_filled_b_def default_detection_config_def
      calculate_detection_confidence_def py_sort_reverse_def Let_def)

text \<open>
  Claim C2, as stated, fails: a contour of area 4000 in a 76 by 76 bounding box
  (\<^verbatim>\<open>aspect_ratio = 1\<close>, \<^verbatim>\<open>fill_ratio = 250/361\<close>, about 0.69) is accepted, but its
  confidence is \<open>907/1805\<close>, about 0.50, which is not greater than 0.6. At exactly
  \<^verbatim>\<open>aspect_ratio = 1.0\<close> and \<^verbatim>\<open>fill_ratio = 0.7\<close> the score is \<open>(0.2 + 1.0 + 0.3) / 3 = 0.5\<close>.
\<close>

theorem near_square_4000_counterexample:
  "analyze_contours default_detection_config [square_4000] =
     Inr [\<lparr>d_bbox = (10, 20, 76, 76), d_area = 4000, d_aspect_ratio = 1,
           d_fill_ratio = 250 / 361, d_confidence = 907 / 1805\<rparr>]
   \<and> \<not> (6 / 10 < (907 / 1805 :: real))
   \<and> calculate_detection_confidence 4000 1 (7 / 10) = 1 / 2"
  by (simp add: analyze_contours_def square_4000_def default_detection_config_def
      calculate_detection_confidence_def py_sort_reverse_def Let_def)

text \<open>
  Claim C2, amended: with the default area limits, a contour of area 4000 whose
  \<^verbatim>\<open>aspect_ratio\<close> is within 0.1 of 1.0 and whose \<^verbatim>\<open>fill_ratio\<close> is within 0.05 of 0.7 is
  accepted as a candidate, with the \<^verbatim>\<open>aspect_ratio\<close> and \<^verbatim>\<open>fill_ratio\<close> measured, and its
  confidence lies between 0.45 and \<open>31/60\<close> (about 0.517): it is about 0.5 and not
  greater than 0.6.
\<close>

theorem near_square_4000_accepted_confidence_half:
  assumes "contourArea c = 4000" and "boundingRect c = (x, y, w, h)" and "0 < h"
    and "\<bar>real_of_int w / real_of_int h - 1\<bar> \<le> 1 / 10"
    and "\<bar>4000 / real_of_int (w * h) - 7 / 10\<bar> \<le> 1 / 20"
  shows "\<exists>conf. analyze_contours default_detection_config [c] =
           Inr [\<lparr>d_bbox = (x, y, w, h), d_area = 4000,
                 d_aspect_ratio = real_of_int w / real_of_int h,
                 d_fill_ratio = 4000 / real_of_int (w * h), d_confidence = conf\<rparr>]
         \<and> conf = calculate_detection_confidence 4000 (real_of_int w / real_of_int h)
                    (4000 / real_of_int (w * h))
         \<and> 9 / 20 \<le> conf \<and> conf \<le> 31 / 60 \<and> \<not> 6 / 10 < conf"
proof -
  define r where "r = real_of_int w / real_of_int h"
  define f where "f = 4000 / real_of_int (w * h)"
  have r: "9 / 10 \<le> r" "r \<le> 11 / 10" using assms(4) unfolding r_def by linarith+
  have f: "13 / 20 \<le> f" "f \<le> 3 / 4" using assms(5) unfolding f_def by linarith+
  have wh: "w * h \<noteq> 0"
  proof
    assume "w * h = 0"
    then have "f = 0" by (simp add: f_def)
    with f(1) show False by simp
  qed
  define R where "R = 1 - \<bar>1 - r\<bar>"
  have conf: "calculate_detection_confidence 4000 r f = (1 / 5 + R + (1 - f)) / 3"
    using r f by (simp add: calculate_detection_confidence_def Let_def R_def)
  have rs: "9 / 10 \<le> R" "R \<le> 1" using r unfolding R_def by linarith+
  have lower: "9 / 20 \<le> calculate_detection_confidence 4000 r f"
    using rs f unfolding conf by simp
  have upper: "calculate_detection_confidence 4000 r f \<le> 31 / 60"
    using rs f unfolding conf by simp
  note bounds = lower upper
  have "analyze_contours default_detection_config [c] =
           Inr [\<lparr>d_bbox = (x, y, w, h), d_area = contourArea c, d_aspect_ratio = r,
                 d_fill_ratio = contourArea c / real_of_int (w * h),
                 d_confidence = calculate_detection_confidence (contourArea c) r
                   (contourArea c / real_of_int (w * h))\<rparr>]"
    unfolding r_def
  proof (rule analyze_contours_single_accept [OF assms(2)])
    show "h \<noteq> 0" using assms(3) by simp
    show "w * h \<noteq> 0" by (rule wh)
    show "min_symbol_area default_detection_config \<le> contourArea c"
      "contourArea c \<le> max_symbol_area default_detection_config"
      by (simp_all add: assms(1) default_detection_config_def)
    show "4 / 10 \<le> real_of_int w / real_of_int h" "real_of_int w / real_of_int h \<le> 25 / 10"
      using r unfolding r_def by linarith+
    show "1 / 10 \<le> contourArea c / real_of_int (w * h)"
      "contourArea c / real_of_int (w * h) \<le> 9 / 10"
      using f unfolding f_def assms(1) by linarith+
  qed
  then have "analyze_contours default_detection_config [c] =
           Inr [\<lparr>d_bbox = (x, y, w, h), d_area = 4000, d_aspect_ratio = r,
                 d_fill_ratio = f, d_confidence = calculate_detection_confidence 4000 r f\<rparr>]"
    unfolding assms(1) f_def .
  with bounds show ?thesis unfolding r_def f_def by simp
qed

theorem near_square_4000_accepted_confidence_half_witness:
  "contourArea square_4000 = 4000 \<and> boundingRect square_4000 = (10, 20, 76, 76)
   \<and> \<bar>real_of_int 76 / real_of_int 76 - 1\<bar> \<le> 1 / 10
   \<and> \<bar>4000 / real_of_int (76 * 76) - 7 / 10\<bar> \<le> 1 / 20
   \<and> (\<exists>conf. analyze_contours default_detection_config [square_4000] =
           Inr [\<lparr>d_bbox = (10, 20, 76, 76), d_area = 4000,
                 d_aspect_ratio = real_of_int 76 / real_of_int 76,
                 d_fill_ratio = 4000 / real_of_int (76 * 76), d_confidence = conf\<rparr>]
         \<and> 9 / 20 \<le> conf \<and> conf \<le> 31 / 60)"
proof -
  have a: "contourArea square_4000 = 4000" "boundingRect square_4000 = (10, 20, 76, 76)"
    by (simp_all add: square_4000_def)
  have b: "\<bar>real_of_int 76 / real_of_int 76 - 1\<bar> \<le> 1 / 10"
    "\<bar>4000 / real_of_int (76 * 76) - 7 / 10\<bar> \<le> 1 / 20" "(0::int) < 76"
    by simp_all
  from near_square_4000_accepted_confidence_half [OF a b(3) b(1) b(2)] a b
  show ?thesis by blast
qed


text \<open>
  Claim C4: every candidate region that the detector returns has its area within the
  configured limits, its \<^verbatim>\<open>aspect_ratio\<close> in \<open>[0.4, 2.5]\<close>, its \<^verbatim>\<open>fill_ratio\<close> in
  \<open>[0.1, 0.9]\<close> and its confidence in \<open>[0, 1]\<close>. The areas that OpenCV reports are
  not negative (\<^verbatim>\<open>cv2.contourArea\<close> returns an absolute value), which is the hypothesis.
\<close>

theorem candidates_within_bounds:
  assumes "\<forall>c \<in> set contours. 0 \<le> contourArea c"
  shows "(\<forall>ds. analyze_contours cfg contours = Inr ds \<longrightarrow>
           (\<forall>d \<in> set ds.
              min_symbol_area cfg \<le> d_area d \<and> d_area d \<le> max_symbol_area cfg
              \<and> 4 / 10 \<le> d_aspect_ratio d \<and> d_aspect_ratio d \<le> 25 / 10
              \<and> 1 / 10 \<le> d_fill_ratio d \<and> d_fill_ratio d \<le> 9 / 10
              \<and> 0 \<le> d_confidence d \<and> d_confidence d \<le> 1))
       \<and> (\<forall>d \<in> set (detect_symbols cfg (Inr contours)).
              min_symbol_area cfg \<le> d_area d \<and> d_area d \<le> max_symbol_area cfg
              \<and> 4 / 10 \<le> d_aspect_ratio d \<and> d_aspect_ratio d \<le> 25 / 10
              \<and> 1 / 10 \<le> d_fill_ratio d \<and> d_fill_ratio d \<le> 9 / 10
              \<and> 0 \<le> d_confidence d \<and> d_confidence d \<le> 1)"
proof -
  have main: "\<forall>d \<in> set ds. candidate_ok cfg d" if "analyze_contours cfg contours = Inr ds" for ds
  proof -
    from that obtain found where found: "analyze_loop cfg contours [] = Inr found"
      and ds: "ds = py_sort_reverse d_confidence found"
      by (auto simp: analyze_contours_def split: sum.splits)
    from analyze_loop_invariant [OF found assms] have "\<forall>d \<in> set found. candidate_ok cfg d" by simp
    then show ?thesis by (simp add: ds set_py_sort_reverse)
  qed
  have "\<forall>d \<in> set (detect_symbols cfg (Inr contours)). candidate_ok cfg d"
  proof (cases "analyze_contours cfg contours")
    case (Inl e)
    then show ?thesis by (simp add: detect_symbols_def)
  next
    case (Inr ds)
    with main [OF Inr] show ?thesis by (simp add: detect_symbols_def)
  qed
  with main show ?thesis unfolding candidate_ok_def by blast
qed

theorem candidates_within_bounds_witness:
  "0 \<le> contourArea small_blob \<and> 0 \<le> contourArea square_4000
   \<and> 0 \<le> contourArea half_filled_a \<and> 0 \<le> contourArea half_filled_b
   \<and> detect_symbols default_detection_config (Inr sample_contours) \<noteq> []
   \<and> list_all (\<lambda>d. 2000 \<le> d_area d \<and> d_area d \<le> 100000
        \<and> 4 / 10 \<le> d_aspect_ratio d \<and> d_aspect_ratio d \<le> 25 / 10
        \<and> 1 / 10 \<le> d_fill_ratio d \<and> d_fill_ratio d \<le> 9 / 10
        \<and> 0 \<le> d_confidence d \<and> d_confidence d \<le> 1)
      (detect_symbols default_detection_config (Inr sample_contours))"
proof -
  have areas: "0 \<le> contourArea small_blob" "0 \<le> contourArea square_4000"
    "0 \<le> contourArea half_filled_a" "0 \<le> contourArea half_filled_b"
    by (simp_all add: small_blob_def square_4000_def half_filled_a_def half_filled_b_def)
  then have hyp: "\<forall>c \<in> set sample_contours. 0 \<le> contourArea c"
    by (simp add: sample_contours_def)
  have nonempty: "detect_symbols default_detection_config (Inr sample_contours) \<noteq> []"
    by (simp add: detect_symbols_def analyze_sample_contours)
  from candidates_within_bounds [OF hyp, of default_detection_config] areas nonempty
  show ?thesis
    by (simp add: list_all_iff default_detection_config_def)
qed

text \<open>
  Claim C9: the list returned by one detection call is sorted by confidence, highest
  first, and candidates with the same confidence keep the order in which the loop over
  the contours found them (\<open>found\<close> is the list the loop built, before the sort).
\<close>

theorem candidates_sorted_by_confidence:
  "analyze_contours cfg contours = Inr ds \<longrightarrow>
     sorted_wrt (\<lambda>a b. d_confidence a \<ge> d_confidence b) ds
     \<and> (\<exists>found. analyze_loop cfg contours [] = Inr found
          \<and> (\<forall>k. filter (\<lambda>d. d_confidence d = k) ds = filter (\<lambda>d. d_confidence d = k) found))
     \<and> detect_symbols cfg (Inr contours) = ds"
proof
  assume res: "analyze_contours cfg contours = Inr ds"
  then obtain found where found: "analyze_loop cfg contours [] = Inr found"
    and ds: "ds = py_sort_reverse d_confidence found"
    by (auto simp: analyze_contours_def split: sum.splits)
  have "sorted_wrt (\<lambda>a b. d_confidence a \<ge> d_confidence b) ds"
    unfolding ds by (rule py_sort_reverse_descending)
  moreover have "\<forall>k. filter (\<lambda>d. d_confidence d = k) ds = filter (\<lambda>d. d_confidence d = k) found"
    unfolding ds by (simp add: py_sort_reverse_stable)
  moreover have "detect_symbols cfg (Inr contours) = ds"
    using res by (simp add: detect_symbols_def)
  ultimately show "sorted_wrt (\<lambda>a b. d_confidence a \<ge> d_confidence b) ds
     \<and> (\<exists>found. analyze_loop cfg contours [] = Inr found
          \<and> (\<forall>k. filter (\<lambda>d. d_confidence d = k) ds = filter (\<lambda>d. d_confidence d = k) found))
     \<and> detect_symbols cfg (Inr contours) = ds"
    using found by blast
qed


theorem candidates_sorted_by_confidence_witness:
  "analyze_contours default_detection_config sample_contours =
     Inr [\<lparr>d_bbox = (200, 40, 100, 100), d_area = 5000, d_aspect_ratio = 1,
           d_fill_ratio = 1 / 2, d_confidence = 7 / 12\<rparr>,
          \<lparr>d_bbox = (300, 300, 100, 100), d_area = 5000, d_aspect_ratio = 1,
           d_fill_ratio = 1 / 2, d_confidence = 7 / 12\<rparr>,
          \<lparr>d_bbox = (10, 20, 76, 76), d_area = 4000, d_aspect_ratio = 1,
           d_fill_ratio = 250 / 361, d_confidence = 907 / 1805\<rparr>]
   \<and> detect_symbols default_detection_config (Inr sample_contours) =
     [\<lparr>d_bbox = (200, 40, 100, 100), d_area = 5000, d_aspect_ratio = 1,
           d_fill_ratio = 1 / 2, d_confidence = 7 / 12\<rparr>,
          \<lparr>d_bbox = (300, 300, 100, 100), d_area = 5000, d_aspect_ratio = 1,
           d_fill_ratio = 1 / 2, d_confidence = 7 / 12\<rparr>,
          \<lparr>d_bbox = (10, 20, 76, 76), d_area = 4000, d_aspect_ratio = 1,
           d_fill_ratio = 250 / 361, d_confidence = 907 / 1805\<rparr>]"
  using candidates_sorted_by_confidence [of default_detection_config sample_contours]
    analyze_sample_contours
  by simp

section \<open>Properties of the symbol recogniser\<close>

lemma filter_dropWhile_disjoint:
  assumes "\<And>c. P c \<Longrightarrow> \<not> Q c"
  shows "filter P (dropWhile Q s) = filter P s"
  using assms by (induction s) auto

lemma filter_py_strip:
  assumes "\<And>c. P c \<Longrightarrow> \<not> is_space c"
  shows "filter P (py_strip s) = filter P s"
proof -
  have "filter P (py_strip s) = rev (filter P (dropWhile is_space (rev (dropWhile is_space s))))"
    by (simp add: py_strip_def rev_filter)
  also have "\<dots> = rev (filter P (rev (dropWhile is_space s)))"
    by (simp add: filter_dropWhile_disjoint [OF assms])
  also have "\<dots> = filter P (dropWhile is_space s)"
    by (simp add: rev_filter)
  also have "\<dots> = filter P s"
    by (rule filter_dropWhile_disjoint [OF assms])
  finally show ?thesis .
qed

lemma filter_py_replace_char:
  assumes "\<not> P old" and "filter P new = []"
  shows "filter P (py_replace_char old new s) = filter P s"
  using assms by (induction s) (auto simp: py_replace_char_def)

lemma filter_py_join:
  assumes "filter P sep = []"
  shows "filter P (py_join sep ws) = filter P (concat ws)"
  using assms by (induction sep ws rule: py_join.induct) simp_all

lemma concat_py_split_from:
  "concat (py_split_from s cur) = cur @ filter (\<lambda>c. \<not> is_space c) s"
  by (induction s cur rule: py_split_from.induct) simp_all

lemma filter_py_split:
  assumes "\<And>c. P c \<Longrightarrow> \<not> is_space c"
  shows "filter P (concat (py_split s)) = filter P s"
proof -
  have "filter P (concat (py_split s)) = filter P (filter (\<lambda>c. \<not> is_space c) s)"
    by (simp add: py_split_def concat_py_split_from)
  also have "\<dots> = filter P s"
    using assms by (auto intro: filter_cong)
  finally show ?thesis .
qed

lemma armenian_not_space: "is_armenian c \<Longrightarrow> \<not> is_space c"
  by (auto simp: is_armenian_def is_space_def)

lemma py_strip_no_space:
  assumes "\<forall>c \<in> set s. \<not> is_space c"
  shows "py_strip s = s"
proof -
  have a: "dropWhile is_space s = s"
    using assms by (cases s) simp_all
  have "dropWhile is_space (rev s) = rev s"
    using assms by (cases "rev s") auto
  with a show ?thesis by (simp add: py_strip_def)
qed

lemma clean_armenian_text_filter: "clean_armenian_text t = filter is_armenian t"
proof (cases "t = []")
  case True
  then show ?thesis by (simp add: clean_armenian_text_def)
next
  case False
  let ?a = "py_strip t"
  let ?b = "py_replace_char 10 [32] ?a"
  let ?c = "py_replace_char 13 [] ?b"
  let ?d = "py_join [32] (py_split ?c)"
  have nl: "\<not> is_armenian 10" "\<not> is_armenian 13" "filter is_armenian [32] = []"
    by (simp_all add: is_armenian_def)
  have "filter is_armenian ?d = filter is_armenian (concat (py_split ?c))"
    by (rule filter_py_join [OF nl(3)])
  also have "\<dots> = filter is_armenian ?c"
    by (rule filter_py_split [OF armenian_not_space])
  also have "\<dots> = filter is_armenian ?b"
    using nl(2) by (simp add: filter_py_replace_char [of is_armenian 13 "[]"])
  also have "\<dots> = filter is_armenian ?a"
    using nl(1) nl(3) by (simp add: filter_py_replace_char [of is_armenian 10 "[32]"])
  also have "\<dots> = filter is_armenian t"
    by (rule filter_py_strip [OF armenian_not_space])
  finally have eq: "filter is_armenian ?d = filter is_armenian t" .
  have "\<forall>c \<in> set (filter is_armenian ?d). \<not> is_space c"
    by (auto dest: armenian_not_space)
  then have "py_strip (filter is_armenian ?d) = filter is_armenian ?d"
    by (rule py_strip_no_space)
  with False eq show ?thesis
    by (simp add: clean_armenian_text_def Let_def)
qed

text \<open>
  Claim C8: whatever the input, the text that \<^verbatim>\<open>clean_armenian_text\<close> returns
  contains only characters of the Armenian block, U+0530 (1328) to U+058F (1423); it
  is exactly the characters of the input that lie in this block, in their order, so an
  input with other scripts, digits, punctuation or whitespace yields that subsequence,
  which may be empty.
\<close>

theorem clean_armenian_text_only_block:
  "(\<forall>c \<in> set (clean_armenian_text t). 1328 \<le> c \<and> c \<le> 1423)
   \<and> clean_armenian_text t = filter (\<lambda>c. 1328 \<le> c \<and> c \<le> 1423) t"
  unfolding clean_armenian_text_filter is_armenian_def [abs_def] by simp

lemma clean_mixed: "clean_armenian_text mixed_text = [1329, 1344, 1417]"
  by (simp add: clean_armenian_text_def mixed_text_def py_strip_def py_replace_char_def
      py_split_def is_space_def is_armenian_def Let_def)

theorem clean_armenian_text_only_block_witness:
  "clean_armenian_text mixed_text = [1329, 1344, 1417]
   \<and> list_all (\<lambda>c. 1328 \<le> c \<and> c \<le> 1423) (clean_armenian_text mixed_text)"
  using clean_armenian_text_only_block [of mixed_text] clean_mixed
  by (simp add: list_all_iff)


lemma dict_of_enumerate_notin:
  "c \<notin> set symbols \<Longrightarrow> dict_of_enumerate idx symbols m c = m c"
  by (induction symbols arbitrary: idx m) simp_all

lemma dict_of_enumerate_nth:
  "distinct symbols \<Longrightarrow> i < length symbols \<Longrightarrow>
   dict_of_enumerate idx symbols m (symbols ! i) = Some (idx + int i)"
proof (induction symbols arbitrary: idx m i)
  case Nil
  then show ?case by simp
next
  case (Cons a rest)
  show ?case
  proof (cases i)
    case 0
    with Cons.prems show ?thesis by (simp add: dict_of_enumerate_notin)
  next
    case (Suc j)
    with Cons.prems have "dict_of_enumerate (idx + 1) rest (m(a \<mapsto> idx)) (rest ! j) = Some (idx + 1 + int j)"
      by (intro Cons.IH) simp_all
    with Suc show ?thesis by simp
  qed
qed

lemma armenian_symbols_distinct: "distinct armenian_symbols"
  by (simp add: armenian_symbols_def)

lemma armenian_symbols_length: "length armenian_symbols = 36"
  by (simp add: armenian_symbols_def)

lemma get_symbol_id_Cons: "get_symbol_id (c # s) = Inr (symbol_to_id c)"
  by (simp add: get_symbol_id_def)

text \<open>
  Claim C6: \<^verbatim>\<open>get_symbol_id\<close> depends on the first character only; it returns
  \<^verbatim>\<open>None\<close> for the empty string and for a first character that is not in the table;
  it never raises. The table has 36 entries, and the \<open>i\<close>-th letter has the ID \<open>i\<close>.
\<close>

theorem get_symbol_id_first_character:
  "get_symbol_id (c # s) = get_symbol_id (c # t)
   \<and> get_symbol_id [] = Inr None
   \<and> (c \<notin> set armenian_symbols \<longrightarrow> get_symbol_id (c # s) = Inr None)
   \<and> (\<exists>r. get_symbol_id u = Inr r)
   \<and> length armenian_symbols = 36
   \<and> (i < 36 \<longrightarrow> get_symbol_id (armenian_symbols ! i # s) = Inr (Some (int i)))"
proof -
  have a: "get_symbol_id (c # s) = get_symbol_id (c # t)"
    by (simp add: get_symbol_id_Cons)
  have b: "get_symbol_id [] = Inr None"
    by (simp add: get_symbol_id_def)
  have c: "c \<notin> set armenian_symbols \<longrightarrow> get_symbol_id (c # s) = Inr None"
    by (simp add: get_symbol_id_Cons symbol_to_id_def dict_of_enumerate_notin)
  have d: "\<exists>r. get_symbol_id u = Inr r"
    by (cases u) (simp_all add: get_symbol_id_Cons b)
  have e: "i < 36 \<longrightarrow> get_symbol_id (armenian_symbols ! i # s) = Inr (Some (int i))"
    using dict_of_enumerate_nth [OF armenian_symbols_distinct, of i 0 Map.empty]
    by (simp add: get_symbol_id_Cons symbol_to_id_def armenian_symbols_length)
  from a b c d e armenian_symbols_length show ?thesis by blast
qed

theorem get_symbol_id_first_character_witness:
  "get_symbol_id [1344, 1329] = get_symbol_id [1344]
   \<and> get_symbol_id [1344] = Inr (Some 15)
   \<and> 1417 \<notin> set armenian_symbols
   \<and> get_symbol_id [1417, 1329] = Inr None"
proof -
  have notin: "1417 \<notin> set armenian_symbols" by (simp add: armenian_symbols_def)
  have nth: "armenian_symbols ! 15 = 1344" by (simp add: armenian_symbols_def)
  from get_symbol_id_first_character [of 1344 "[1329]" "[]" "[]" 15]
    get_symbol_id_first_character [of 1417 "[1329]" "[]" "[]" 0] notin nth
  show ?thesis by auto
qed

lemma recognize_never_raises: "\<exists>r. recognize_armenian_text env image_region = Inr r"
  by (cases "recognize_body env image_region") (simp_all add: recognize_armenian_text_def)

text \<open>
  Claim C5: \<^verbatim>\<open>recognize_armenian_text\<close> always returns a result and never raises. If
  the OCR engine is not installed, or the region is \<^verbatim>\<open>None\<close> or has size 0, the result
  has empty text, confidence 0.0 and \<^verbatim>\<open>symbol_id\<close> \<^verbatim>\<open>None\<close> (and no other key). An
  exception raised inside gives the same three values, with the key \<^verbatim>\<open>error\<close> added.
\<close>

theorem recognize_armenian_text_error_policy:
  "(\<exists>r. recognize_armenian_text env image_region = Inr r)
   \<and> (pytesseract env = None \<or> image_region = None
        \<or> (\<exists>region. image_region = Some region \<and> image_size region = 0)
      \<longrightarrow> recognize_armenian_text env image_region =
            Inr \<lparr>res_text = [], res_confidence = 0, res_symbol_id = None,
                 res_raw_text = None, res_word_confidences = None, res_error = None\<rparr>)
   \<and> (\<forall>e. recognize_body env image_region = Inl e
      \<longrightarrow> recognize_armenian_text env image_region =
            Inr \<lparr>res_text = [], res_confidence = 0, res_symbol_id = None,
                 res_raw_text = None, res_word_confidences = None, res_error = Some e\<rparr>)"
proof (intro conjI impI allI)
  show "\<exists>r. recognize_armenian_text env image_region = Inr r"
    by (rule recognize_never_raises)
next
  assume "pytesseract env = None \<or> image_region = None
        \<or> (\<exists>region. image_region = Some region \<and> image_size region = 0)"
  then have "recognize_body env image_region = Inr empty_result"
    by (auto simp: recognize_body_def split: option.splits)
  then show "recognize_armenian_text env image_region =
            Inr \<lparr>res_text = [], res_confidence = 0, res_symbol_id = None,
                 res_raw_text = None, res_word_confidences = None, res_error = None\<rparr>"
    by (simp add: recognize_armenian_text_def empty_result_def)
next
  fix e
  assume "recognize_body env image_region = Inl e"
  then show "recognize_armenian_text env image_region =
            Inr \<lparr>res_text = [], res_confidence = 0, res_symbol_id = None,
                 res_raw_text = None, res_word_confidences = None, res_error = Some e\<rparr>"
    by (simp add: recognize_armenian_text_def)
qed

lemma recognize_reading:
  "recognize_armenian_text reading_engine (Some small_region) =
     Inr \<lparr>res_text = [1344, 1329], res_confidence = 92 / 100, res_symbol_id = Some 15,
          res_raw_text = Some [1344, 1329, 10], res_word_confidences = Some [96, 88],
          res_error = None\<rparr>"
  by (simp add: recognize_armenian_text_def recognize_body_def reading_engine_def
      small_region_def image_size_def clean_armenian_text_filter is_armenian_def
      get_symbol_id_Cons symbol_to_id_def armenian_symbols_def Let_def)

theorem recognize_armenian_text_error_policy_witness:
  "recognize_armenian_text no_engine (Some small_region) =
     Inr \<lparr>res_text = [], res_confidence = 0, res_symbol_id = None,
          res_raw_text = None, res_word_confidences = None, res_error = None\<rparr>
   \<and> recognize_armenian_text reading_engine None =
     Inr \<lparr>res_text = [], res_confidence = 0, res_symbol_id = None,
          res_raw_text = None, res_word_confidences = None, res_error = None\<rparr>
   \<and> recognize_armenian_text reading_engine (Some empty_region) =
     Inr \<lparr>res_text = [], res_confidence = 0, res_symbol_id = None,
          res_raw_text = None, res_word_confidences = None, res_error = None\<rparr>
   \<and> recognize_armenian_text failing_engine (Some small_region) =
     Inr \<lparr>res_text = [], res_confidence = 0, res_symbol_id = None,
          res_raw_text = None, res_word_confidences = None, res_error = Some EngineError\<rparr>"
proof -
  have a: "pytesseract no_engine = None" by (simp add: no_engine_def)
  have b: "image_size empty_region = 0" by (simp add: image_size_def empty_region_def)
  have c: "recognize_body failing_engine (Some small_region) = Inl EngineError"
    by (simp add: recognize_body_def failing_engine_def small_region_def image_size_def Let_def)
  from recognize_armenian_text_error_policy [of no_engine "Some small_region"]
    recognize_armenian_text_error_policy [of reading_engine None]
    recognize_armenian_text_error_policy [of reading_engine "Some empty_region"]
    recognize_armenian_text_error_policy [of failing_engine "Some small_region"]
    a b c
  show ?thesis by simp
qed


section \<open>Properties of the e7 encoding\<close>


lemma round_half_even_error: "\<bar>of_int (round_half_even x) - x\<bar> \<le> 1 / 2"
proof -
  define n where "n = \<lfloor>x\<rfloor>"
  define d where "d = x - of_int n"
  have d: "0 \<le> d" "d < 1" unfolding d_def n_def by linarith+
  have r: "round_half_even x =
      (if d < 1 / 2 then n else if 1 / 2 < d then n + 1 else if even n then n else n + 1)"
    by (simp add: round_half_even_def Let_def n_def d_def)
  have "round_half_even x = n \<and> d \<le> 1 / 2 \<or> round_half_even x = n + 1 \<and> 1 / 2 \<le> d"
    unfolding r by auto
  then show ?thesis
  proof
    assume a: "round_half_even x = n \<and> d \<le> 1 / 2"
    then have "of_int (round_half_even x) - x = - d" by (simp add: d_def)
    with a d show ?thesis by simp
  next
    assume a: "round_half_even x = n + 1 \<and> 1 / 2 \<le> d"
    then have "of_int (round_half_even x) - x = 1 - d" by (simp add: d_def)
    with a d show ?thesis by simp
  qed
qed

lemma round_half_even_near:
  assumes "\<bar>y - of_int k\<bar> < 1 / 2"
  shows "round_half_even y = k"
proof -
  have "\<bar>(of_int (round_half_even y) :: rat) - of_int k\<bar> < 1"
    using round_half_even_error [of y] assms by linarith
  then have "\<bar>(of_int (round_half_even y - k) :: rat)\<bar> < 1" by simp
  then have "\<bar>round_half_even y - k\<bar> < 1"
    by (metis of_int_abs of_int_less_1_iff)
  then show ?thesis by simp
qed

lemma round_half_even_of_int: "round_half_even (of_int n) = n"
  by (rule round_half_even_near) simp

lemma two_powi_pos: "0 < (2::rat) powi e"
  by simp

lemma two_powi_nat: "0 \<le> n \<Longrightarrow> (2::rat) powi n = of_int (2 ^ nat n)"
  by (simp add: power_int_def)

lemma ilog2_le:
  assumes "x \<noteq> 0"
  shows "2 powi (ilog2 x) \<le> \<bar>x\<bar>"
proof -
  obtain p q where pq: "quotient_of \<bar>x\<bar> = (p, q)" by (cases "quotient_of \<bar>x\<bar>")
  then have q: "0 < q" by (rule quotient_of_denom_pos)
  have x: "\<bar>x\<bar> = of_int p / of_int q" using pq by (rule quotient_of_div)
  have "0 < \<bar>x\<bar>" using assms by simp
  with x q have p: "0 < p" by (simp add: zero_less_divide_iff)
  define e where "e = bitlen p - bitlen q"
  have qr: "(0::rat) < of_int q" using q by simp
  show ?thesis
  proof (cases "(2 powi e) * of_int q \<le> (of_int p :: rat)")
    case True
    then have "ilog2 x = e" by (simp add: ilog2_def pq e_def)
    moreover from True qr have "2 powi e \<le> (of_int p :: rat) / of_int q"
      by (simp add: pos_le_divide_eq)
    ultimately show ?thesis by (simp add: x)
  next
    case False
    then have il: "ilog2 x = e - 1" by (simp add: ilog2_def pq e_def)
    have bp: "1 \<le> bitlen p" using p by (simp add: bitlen_alt_def)
    have bq: "1 \<le> bitlen q" using q by (simp add: bitlen_alt_def)
    have "2 ^ nat (bitlen p - 1) \<le> p" using bitlen_bounds [OF p] by simp
    then have "(of_int (2 ^ nat (bitlen p - 1)) :: rat) \<le> of_int p" by (simp only: of_int_le_iff)
    then have lo: "(2::rat) powi (bitlen p - 1) \<le> of_int p"
      using bp by (simp add: two_powi_nat)
    have "q < 2 ^ nat (bitlen q)" using bitlen_bounds [OF q] by simp
    then have "(of_int q :: rat) < of_int (2 ^ nat (bitlen q))" by (simp only: of_int_less_iff)
    then have hi: "(of_int q :: rat) < 2 powi (bitlen q)"
      using bq by (simp add: two_powi_nat)
    have "(2::rat) powi (e - 1) * of_int q \<le> 2 powi (e - 1) * 2 powi (bitlen q)"
      using hi two_powi_pos [of "e - 1"] by (simp add: mult_le_cancel_left_pos)
    also have "\<dots> = 2 powi (bitlen p - 1)"
      by (simp add: e_def flip: power_int_add)
    also note lo
    finally have "(2::rat) powi (e - 1) \<le> of_int p / of_int q"
      using qr by (simp add: pos_le_divide_eq)
    with il show ?thesis by (simp add: x)
  qed
qed

lemma two_powi_less_D:
  assumes "(2::rat) powi a < 2 powi b"
  shows "a < b"
proof (rule ccontr)
  assume "\<not> a < b"
  then have "b \<le> a" by simp
  then have "(2::rat) powi b \<le> 2 powi a" by (intro power_int_increasing) simp_all
  with assms show False by simp
qed

lemma ulp_pos: "0 < ulp x"
  by (simp add: ulp_def two_powi_pos)

lemma round_to_double_error: "\<bar>round_to_double x - x\<bar> \<le> ulp x / 2"
proof (cases "x = 0")
  case True
  then show ?thesis using ulp_pos [of 0] by (simp add: round_to_double_def)
next
  case False
  define u where "u = ulp x"
  have u: "0 < u" by (simp add: u_def ulp_pos)
  have "round_to_double x - x = (of_int (round_half_even (x / u)) - x / u) * u"
    using False u by (simp add: round_to_double_def u_def algebra_simps)
  then have "\<bar>round_to_double x - x\<bar> = \<bar>of_int (round_half_even (x / u)) - x / u\<bar> * u"
    using u by (simp add: abs_mult)
  also have "\<dots> \<le> (1 / 2) * u"
    using round_half_even_error [of "x / u"] u by (intro mult_right_mono) simp_all
  finally show ?thesis by (simp add: u_def)
qed

lemma ulp_le:
  assumes "x \<noteq> 0" and "\<bar>x\<bar> < 2 powi (n + 1)" and "- 1022 \<le> n"
  shows "ulp x \<le> 2 powi (n - 52)"
proof -
  have "(2::rat) powi (ilog2 x) < 2 powi (n + 1)"
    using ilog2_le [OF assms(1)] assms(2) by linarith
  then have "ilog2 x < n + 1"
    by (rule two_powi_less_D)
  then have "max (ilog2 x) (- 1022) - 52 \<le> n - 52" using assms(3) by simp
  then show ?thesis
    unfolding ulp_def by (intro power_int_increasing) simp_all
qed

lemma round_to_double_error_bound:
  assumes "\<bar>x\<bar> < 2 powi (n + 1)" and "- 1022 \<le> n"
  shows "\<bar>round_to_double x - x\<bar> \<le> 2 powi (n - 53)"
proof (cases "x = 0")
  case True
  then show ?thesis using two_powi_pos [of "n - 53"] by (simp add: round_to_double_def)
next
  case False
  have "\<bar>round_to_double x - x\<bar> \<le> ulp x / 2" by (rule round_to_double_error)
  also have "\<dots> \<le> 2 powi (n - 52) / 2"
    using ulp_le [OF False assms] by simp
  also have "\<dots> = 2 powi (n - 53)"
    using power_int_add [of "2::rat" "n - 53" 1] by simp
  finally show ?thesis .
qed


lemma round_to_double_of_int:
  assumes "\<bar>k\<bar> < 2 ^ 53"
  shows "round_to_double (of_int k) = of_int k"
proof (cases "k = 0")
  case True
  then show ?thesis by (simp add: round_to_double_def)
next
  case False
  define x :: rat where "x = of_int k"
  define m where "m = max (ilog2 x) (- 1022) - 52"
  have x0: "x \<noteq> 0" using False by (simp add: x_def)
  have "\<bar>x\<bar> < of_int (2 ^ 53)" unfolding x_def using assms
    by (metis of_int_abs of_int_less_iff)
  then have "\<bar>x\<bar> < 2 powi (52 + 1)" by (simp add: power_int_def)
  from ulp_le [OF x0 this] have "ulp x \<le> 2 powi 0" by simp
  then have "(2::rat) powi m \<le> 2 powi 0" by (simp add: ulp_def m_def)
  have m: "m \<le> 0"
  proof (rule ccontr)
    assume "\<not> m \<le> 0"
    then have "(2::rat) powi 0 < 2 powi m" by (intro power_int_strict_increasing) simp_all
    with \<open>(2::rat) powi m \<le> 2 powi 0\<close> show False by simp
  qed
  have u: "ulp x = 2 powi m" by (simp add: ulp_def m_def)
  have "(2::rat) powi m = inverse (2 powi (- m))"
    using power_int_minus [of "2::rat" "- m"] by simp
  also have "(2::rat) powi (- m) = of_int (2 ^ nat (- m))"
    using m by (intro two_powi_nat) simp
  finally have inv: "1 / ulp x = of_int (2 ^ nat (- m))"
    by (simp add: u inverse_eq_divide)
  have "x / ulp x = x * (1 / ulp x)" by simp
  also have "\<dots> = of_int (k * 2 ^ nat (- m))"
    unfolding inv by (simp add: x_def)
  finally have "x / ulp x = of_int (k * 2 ^ nat (- m))" .
  then have "round_half_even (x / ulp x) = k * 2 ^ nat (- m)"
    by (simp only: round_half_even_of_int)
  then have "of_int (round_half_even (x / ulp x)) * ulp x = x * (of_int (2 ^ nat (- m)) * ulp x)"
    by (simp add: x_def)
  also have "of_int (2 ^ nat (- m)) * ulp x = 1"
    using inv ulp_pos [of x] by (simp add: field_simps)
  finally show ?thesis using x0 by (simp add: round_to_double_def x_def)
qed

lemma two_powi_m46: "(2::rat) powi (- 46) = 1 / 70368744177664"
  by (simp add: power_int_minus inverse_eq_divide)

lemma two_powi_m23: "(2::rat) powi (- 23) = 1 / 8388608"
  by (simp add: power_int_minus inverse_eq_divide)

lemma two_powi_8: "(2::rat) powi 8 = 256" and two_powi_31: "(2::rat) powi 31 = 2147483648"
  by (simp_all add: power_int_def)

lemma product_rounding:
  assumes "\<bar>lat\<bar> \<le> 200"
  shows "float_result (lat * 10000000) = Some (round_to_double (lat * 10000000))
    \<and> \<bar>round_to_double (lat * 10000000) - lat * 10000000\<bar> \<le> 1 / 8388608"
proof -
  define p where "p = lat * 10000000"
  have p: "\<bar>p\<bar> \<le> 2000000000" using assms by (simp add: p_def abs_mult)
  then have "\<bar>p\<bar> < 2 powi (30 + 1)" by (simp add: two_powi_31)
  from round_to_double_error_bound [OF this]
  have err: "\<bar>round_to_double p - p\<bar> \<le> 1 / 8388608" by (simp add: two_powi_m23)
  with p have "\<bar>round_to_double p\<bar> < 2147483648" by linarith
  also have "(2147483648::rat) \<le> 2 ^ 1024"
    using power_increasing [of 31 1024 "2::rat"] by simp
  finally have "float_result p = Some (round_to_double p)"
    by (simp add: float_result_def)
  with err show ?thesis by (simp add: p_def)
qed

lemma e7_encode:
  assumes "\<bar>lat\<bar> \<le> 200"
  shows "py_round (float_result (lat * 10000000)) = Inr (round_half_even (round_to_double (lat * 10000000)))
    \<and> \<bar>of_int (round_half_even (round_to_double (lat * 10000000))) - lat * 10000000\<bar>
        \<le> 1 / 2 + 1 / 8388608"
proof -
  from product_rounding [OF assms]
  have a: "float_result (lat * 10000000) = Some (round_to_double (lat * 10000000))"
    and b: "\<bar>round_to_double (lat * 10000000) - lat * 10000000\<bar> \<le> 1 / 8388608"
    by simp_all
  from round_half_even_error [of "round_to_double (lat * 10000000)"] b
  have "\<bar>of_int (round_half_even (round_to_double (lat * 10000000))) - lat * 10000000\<bar>
        \<le> 1 / 2 + 1 / 8388608"
    by linarith
  with a show ?thesis by (simp add: py_round_def)
qed

lemma nearest_e7_double:
  assumes "\<bar>k\<bar> \<le> 1800000000"
  shows "\<bar>round_to_double (of_int k / 10000000)\<bar> \<le> 200
    \<and> \<bar>round_to_double (of_int k / 10000000) * 10000000 - of_int k\<bar> \<le> 1 / 7036874"
proof -
  define x :: rat where "x = of_int k / 10000000"
  have "\<bar>(of_int k :: rat)\<bar> \<le> 1800000000"
    using assms by (metis of_int_abs of_int_le_iff of_int_numeral)
  then have x: "\<bar>x\<bar> \<le> 180" by (simp add: x_def)
  then have "\<bar>x\<bar> < 2 powi (7 + 1)" by (simp add: two_powi_8)
  from round_to_double_error_bound [OF this]
  have err: "\<bar>round_to_double x - x\<bar> \<le> 1 / 70368744177664" by (simp add: two_powi_m46)
  have eq: "round_to_double x * 10000000 - of_int k = (round_to_double x - x) * 10000000"
    by (simp add: x_def algebra_simps)
  have "\<bar>round_to_double x * 10000000 - of_int k\<bar> = \<bar>round_to_double x - x\<bar> * 10000000"
    unfolding eq abs_mult by simp
  with err have close: "\<bar>round_to_double x * 10000000 - of_int k\<bar> \<le> 1 / 7036874"
    by simp
  from err x have "\<bar>round_to_double x\<bar> \<le> 200" by linarith
  with close show ?thesis by (simp add: x_def)
qed

lemma e7_encode_exact:
  assumes "\<bar>k\<bar> \<le> 1800000000"
  shows "py_round (float_result (round_to_double (of_int k / 10000000) * 10000000)) = Inr k"
proof -
  define lat where "lat = round_to_double (of_int k / 10000000)"
  from nearest_e7_double [OF assms]
  have lat: "\<bar>lat\<bar> \<le> 200" and close: "\<bar>lat * 10000000 - of_int k\<bar> \<le> 1 / 7036874"
    by (simp_all add: lat_def)
  from product_rounding [OF lat]
  have a: "float_result (lat * 10000000) = Some (round_to_double (lat * 10000000))"
    and b: "\<bar>round_to_double (lat * 10000000) - lat * 10000000\<bar> \<le> 1 / 8388608"
    by simp_all
  from close b have "\<bar>round_to_double (lat * 10000000) - of_int k\<bar> < 1 / 2" by linarith
  then have "round_half_even (round_to_double (lat * 10000000)) = k"
    by (rule round_half_even_near)
  with a show ?thesis by (simp add: py_round_def lat_def)
qed

lemma int_div_1e7_nearest:
  assumes "\<bar>k\<bar> \<le> 1800000000"
  shows "int_div_1e7 k = round_to_double (of_int k / 10000000)"
proof -
  have "\<bar>k\<bar> < 2 ^ 53" using assms by simp
  then show ?thesis by (simp add: int_div_1e7_def round_to_double_of_int)
qed

text \<open>
  Claim C7, amended. For a latitude and a longitude that are the doubles nearest to
  \<open>k * 10^-7\<close> and \<open>j * 10^-7\<close>, for integers of magnitude up to \<open>1.8 * 10^9\<close> (the values
  \<^verbatim>\<open>msg.lat / 1e7\<close> and \<^verbatim>\<open>msg.lon / 1e7\<close> that telemetry supplies),
  \<^verbatim>\<open>format_for_competition\<close> returns exactly \<open>(k, j)\<close>, and
  \<^verbatim>\<open>round(lat_e7 / 1e7, 7) == round(lat, 7)\<close> holds. For any other input of magnitude up
  to 180 the result is the integer nearest (a tie to the even one) to the double
  product \<^verbatim>\<open>lat * 1e7\<close>, which differs from the exact \<open>lat * 10^7\<close> by at most
  \<open>1/2 + 2^-23\<close>.
\<close>

theorem format_for_competition_e7:
  "(\<bar>k\<bar> \<le> 1800000000 \<and> \<bar>j\<bar> \<le> 1800000000 \<longrightarrow>
      format_for_competition (round_to_double (of_int k / 10000000))
        (round_to_double (of_int j / 10000000)) = Inr (k, j)
      \<and> py_round_ndigits (int_div_1e7 k) 7 = py_round_ndigits (round_to_double (of_int k / 10000000)) 7
      \<and> py_round_ndigits (int_div_1e7 j) 7 = py_round_ndigits (round_to_double (of_int j / 10000000)) 7)
   \<and> (\<bar>lat\<bar> \<le> 180 \<and> \<bar>lon\<bar> \<le> 180 \<longrightarrow>
      (\<exists>lat_e7 lon_e7. format_for_competition lat lon = Inr (lat_e7, lon_e7)
         \<and> lat_e7 = round_half_even (round_to_double (lat * 10000000))
         \<and> lon_e7 = round_half_even (round_to_double (lon * 10000000))
         \<and> \<bar>of_int lat_e7 - lat * 10000000\<bar> \<le> 1 / 2 + 1 / 8388608
         \<and> \<bar>of_int lon_e7 - lon * 10000000\<bar> \<le> 1 / 2 + 1 / 8388608))"
proof (intro conjI impI)
  assume kj: "\<bar>k\<bar> \<le> 1800000000 \<and> \<bar>j\<bar> \<le> 1800000000"
  then show "format_for_competition (round_to_double (of_int k / 10000000))
        (round_to_double (of_int j / 10000000)) = Inr (k, j)"
    by (simp add: format_for_competition_def e7_encode_exact)
  from kj show "py_round_ndigits (int_div_1e7 k) 7 = py_round_ndigits (round_to_double (of_int k / 10000000)) 7"
    by (simp add: int_div_1e7_nearest)
  from kj show "py_round_ndigits (int_div_1e7 j) 7 = py_round_ndigits (round_to_double (of_int j / 10000000)) 7"
    by (simp add: int_div_1e7_nearest)
next
  assume "\<bar>lat\<bar> \<le> 180 \<and> \<bar>lon\<bar> \<le> 180"
  then have "\<bar>lat\<bar> \<le> 200" "\<bar>lon\<bar> \<le> 200" by simp_all
  from e7_encode [OF this(1)] e7_encode [OF this(2)]
  show "\<exists>lat_e7 lon_e7. format_for_competition lat lon = Inr (lat_e7, lon_e7)
         \<and> lat_e7 = round_half_even (round_to_double (lat * 10000000))
         \<and> lon_e7 = round_half_even (round_to_double (lon * 10000000))
         \<and> \<bar>of_int lat_e7 - lat * 10000000\<bar> \<le> 1 / 2 + 1 / 8388608
         \<and> \<bar>of_int lon_e7 - lon * 10000000\<bar> \<le> 1 / 2 + 1 / 8388608"
    by (simp add: format_for_competition_def)
qed

lemma sample_doubles:
  "round_to_double (4018111115 / 100000000) = double_40_18111115"
  "round_to_double (of_int 445135555 / 10000000) = double_44_5135555"
  "is_double double_40_18111115"
  by code_simp+


theorem format_for_competition_e7_witness:
  "format_for_competition (round_to_double (401811111 / 10000000))
        (round_to_double (445135555 / 10000000)) = Inr (401811111, 445135555)
   \<and> py_round_ndigits (int_div_1e7 401811111) 7
       = py_round_ndigits (round_to_double (401811111 / 10000000)) 7
   \<and> (\<exists>lat_e7 lon_e7.
         format_for_competition double_40_18111115 double_44_5135555 = Inr (lat_e7, lon_e7)
         \<and> \<bar>of_int lat_e7 - double_40_18111115 * 10000000\<bar> \<le> 1 / 2 + 1 / 8388608)"
  using format_for_competition_e7 [of 401811111 445135555 double_40_18111115 double_44_5135555]
  by (simp add: double_40_18111115_def double_44_5135555_def)

lemma format_40_18111115:
  "format_for_competition double_40_18111115 double_44_5135555 = Inr (401811112, 445135555)"
  by code_simp

lemma not_nearest_40_18111115:
  "\<not> \<bar>of_int 401811112 - double_40_18111115 * 10000000\<bar> \<le> 1 / 2"
  by (simp add: double_40_18111115_def)

lemma roundtrip_fails_40_18111115:
  "py_round_ndigits (int_div_1e7 401811112) 7 \<noteq> py_round_ndigits double_40_18111115 7"
  by code_simp

text \<open>
  Claim C7, as stated, fails at the double nearest to 40.18111115. Its exact product
  with \<open>10^7\<close> lies just below 401811111.5, so the nearest integer is 401811111; the
  double product is exactly 401811111.5 and \<^verbatim>\<open>round\<close> takes it to the even 401811112.
  Then \<^verbatim>\<open>round(lat_e7 / 1e7, 7)\<close> is 40.1811112 and \<^verbatim>\<open>round(lat, 7)\<close> is 40.1811111.
\<close>

theorem format_for_competition_counterexample:
  "is_double double_40_18111115
   \<and> format_for_competition double_40_18111115 double_44_5135555 = Inr (401811112, 445135555)
   \<and> \<not> \<bar>of_int 401811112 - double_40_18111115 * 10000000\<bar> \<le> 1 / 2
   \<and> py_round_ndigits (int_div_1e7 401811112) 7 \<noteq> py_round_ndigits double_40_18111115 7"
  by (intro conjI sample_doubles(3) format_40_18111115 not_nearest_40_18111115
      roundtrip_fails_40_18111115)

section \<open>Properties of the detection log\<close>


lemma log_detection_success:
  assumes "call_succeeds call"
  shows "log_detection L call io_ok =
     (if 5 \<le> length (data_buffer L) + 1
      then L\<lparr>flight_file := flight_file L @ data_buffer L @ [row_of call],
             competition_csv := competition_csv L @ csv_buffer L @ entries_of call,
             data_buffer := [], csv_buffer := [],
             log_lines := log_lines L
               @ [Flushed_To_Excel (length (data_buffer L) + 1)]
               @ (if csv_buffer L @ entries_of call = [] then []
                  else [Flushed_To_CSV (length (csv_buffer L @ entries_of call))])
               @ [Logged_Detection]\<rparr>
      else L\<lparr>data_buffer := data_buffer L @ [row_of call],
             csv_buffer := csv_buffer L @ entries_of call,
             log_lines := log_lines L @ [Logged_Detection]\<rparr>)"
proof -
  from assms obtain ts where ts: "c_timestamp_text call = Inr ts"
    by (auto simp: call_succeeds_def)
  show ?thesis
  proof (cases "c_symbol_id call")
    case None
    then show ?thesis
      by (simp add: log_detection_def ts row_of_def entries_of_def Let_def
          flush_to_excel_def flush_to_competition_csv_def io_ok_def)
  next
    case (Some sid)
    with assms obtain a b where ab: "format_for_competition (c_gps_lat call) (c_gps_lon call) = Inr (a, b)"
      by (auto simp: call_succeeds_def)
    with Some show ?thesis
      by (simp add: log_detection_def ts row_of_def entries_of_def Let_def
          flush_to_excel_def flush_to_competition_csv_def io_ok_def)
  qed
qed


lemma log_detection_success_total:
  assumes "call_succeeds call"
  shows "flight_file (log_detection L call io_ok) @ data_buffer (log_detection L call io_ok)
           = flight_file L @ data_buffer L @ [row_of call]"
    and "competition_csv (log_detection L call io_ok) @ csv_buffer (log_detection L call io_ok)
           = competition_csv L @ csv_buffer L @ entries_of call"
  by (simp_all add: log_detection_success [OF assms])

lemma log_detection_success_count:
  assumes "call_succeeds call" and "length (data_buffer L) < 5"
  shows "length (data_buffer (log_detection L call io_ok)) = (length (data_buffer L) + 1) mod 5"
    and "excel_flushes (log_detection L call io_ok)
           = excel_flushes L + (length (data_buffer L) + 1) div 5"
    and "data_buffer (log_detection L call io_ok) = [] \<longrightarrow> csv_buffer (log_detection L call io_ok) = []"
proof -
  consider "length (data_buffer L) + 1 = 5" | "length (data_buffer L) + 1 < 5"
    using assms(2) by linarith
  then have "length (data_buffer (log_detection L call io_ok)) = (length (data_buffer L) + 1) mod 5
    \<and> excel_flushes (log_detection L call io_ok)
           = excel_flushes L + (length (data_buffer L) + 1) div 5
    \<and> (data_buffer (log_detection L call io_ok) = [] \<longrightarrow> csv_buffer (log_detection L call io_ok) = [])"
    by cases (simp_all add: log_detection_success [OF assms(1)] excel_flushes_def)
  then show "length (data_buffer (log_detection L call io_ok)) = (length (data_buffer L) + 1) mod 5"
    and "excel_flushes (log_detection L call io_ok)
           = excel_flushes L + (length (data_buffer L) + 1) div 5"
    and "data_buffer (log_detection L call io_ok) = [] \<longrightarrow> csv_buffer (log_detection L call io_ok) = []"
    by simp_all
qed

lemma log_detections_total:
  assumes "\<forall>c \<in> set calls. call_succeeds c"
  shows "flight_file (log_detections L (map (\<lambda>c. (c, io_ok)) calls))
           @ data_buffer (log_detections L (map (\<lambda>c. (c, io_ok)) calls))
         = flight_file L @ data_buffer L @ map row_of calls
       \<and> competition_csv (log_detections L (map (\<lambda>c. (c, io_ok)) calls))
           @ csv_buffer (log_detections L (map (\<lambda>c. (c, io_ok)) calls))
         = competition_csv L @ csv_buffer L @ concat (map entries_of calls)"
  using assms
proof (induction calls arbitrary: L)
  case Nil
  then show ?case by simp
next
  case (Cons c rest)
  then have c: "call_succeeds c" and rest: "\<forall>c \<in> set rest. call_succeeds c" by simp_all
  from Cons.IH [OF rest, of "log_detection L c io_ok"] log_detection_success_total [OF c, of L]
  show ?case by simp
qed

lemma log_detections_count:
  assumes "\<forall>c \<in> set calls. call_succeeds c" and "length (data_buffer L) < 5"
  shows "length (data_buffer (log_detections L (map (\<lambda>c. (c, io_ok)) calls)))
           = (length (data_buffer L) + length calls) mod 5
       \<and> excel_flushes (log_detections L (map (\<lambda>c. (c, io_ok)) calls))
           = excel_flushes L + (length (data_buffer L) + length calls) div 5
       \<and> (calls \<noteq> [] \<longrightarrow> data_buffer (log_detections L (map (\<lambda>c. (c, io_ok)) calls)) = [] \<longrightarrow>
            csv_buffer (log_detections L (map (\<lambda>c. (c, io_ok)) calls)) = [])"
  using assms
proof (induction calls arbitrary: L)
  case Nil
  then show ?case by simp
next
  case (Cons c rest)
  then have c: "call_succeeds c" and rest: "\<forall>c \<in> set rest. call_succeeds c" by simp_all
  define L1 where "L1 = log_detection L c io_ok"
  define n where "n = length (data_buffer L)"
  have n: "n < 5" using Cons.prems(2) by (simp add: n_def)
  from log_detection_success_count [OF c Cons.prems(2)]
  have len1: "length (data_buffer L1) = (n + 1) mod 5"
    and fl1: "excel_flushes L1 = excel_flushes L + (n + 1) div 5"
    and csv1: "data_buffer L1 = [] \<longrightarrow> csv_buffer L1 = []"
    by (simp_all add: L1_def n_def)
  have lt1: "length (data_buffer L1) < 5" by (simp add: len1)
  from Cons.IH [OF rest lt1]
  have len: "length (data_buffer (log_detections L1 (map (\<lambda>c. (c, io_ok)) rest)))
           = ((n + 1) mod 5 + length rest) mod 5"
    and fl: "excel_flushes (log_detections L1 (map (\<lambda>c. (c, io_ok)) rest))
           = excel_flushes L1 + ((n + 1) mod 5 + length rest) div 5"
    and csv: "rest \<noteq> [] \<longrightarrow> data_buffer (log_detections L1 (map (\<lambda>c. (c, io_ok)) rest)) = [] \<longrightarrow>
            csv_buffer (log_detections L1 (map (\<lambda>c. (c, io_ok)) rest)) = []"
    by (simp_all add: len1)
  define r where "r = length rest"
  have a: "((n + 1) mod 5 + r) mod 5 = (n + (r + 1)) mod 5"
    by presburger
  have b: "(n + 1) div 5 + ((n + 1) mod 5 + r) div 5 = (n + (r + 1)) div 5"
    by presburger
  have csv': "data_buffer (log_detections L1 (map (\<lambda>c. (c, io_ok)) rest)) = [] \<longrightarrow>
            csv_buffer (log_detections L1 (map (\<lambda>c. (c, io_ok)) rest)) = []"
    using csv csv1 by (cases rest) simp_all
  have step: "log_detections L (map (\<lambda>c. (c, io_ok)) (c # rest))
      = log_detections L1 (map (\<lambda>c. (c, io_ok)) rest)"
    by (simp add: L1_def)
  have lenc: "length (c # rest) = r + 1" by (simp add: r_def)
  have "length (data_buffer (log_detections L1 (map (\<lambda>c. (c, io_ok)) rest))) = (n + (r + 1)) mod 5"
    using len a by (simp only: r_def)
  moreover have "excel_flushes (log_detections L1 (map (\<lambda>c. (c, io_ok)) rest))
      = excel_flushes L + (n + (r + 1)) div 5"
    using fl fl1 b by (simp only: r_def add.assoc)
  ultimately show ?case
    unfolding step lenc n_def [symmetric] using csv' by blast
qed

lemma close_logger_ok:
  "flight_file (close_logger L io_ok) = flight_file L @ data_buffer L"
  "competition_csv (close_logger L io_ok) = competition_csv L @ csv_buffer L"
  "data_buffer (close_logger L io_ok) = []"
  "csv_buffer (close_logger L io_ok) = []"
  by (simp_all add: close_logger_def flush_to_excel_def flush_to_competition_csv_def io_ok_def Let_def)

text \<open>
  Claim C3. All calls are successful and every file operation succeeds (\<open>io_ok\<close>).
  If the detection buffer is empty and five calls follow, the log shows exactly one more
  flush of the detection buffer, and both buffers are empty afterwards. After any
  sequence of calls followed by \<^verbatim>\<open>close\<close>, the workbook holds what it held before, the
  rows that were still buffered and the row of every call, in this order and each once;
  the coordinate file likewise holds the entry of every call that has a
  \<^verbatim>\<open>symbol_id\<close>; both buffers are empty. A flush whose write fails changes neither the
  buffer nor the file, so a buffer is cleared only by a write that succeeded.
\<close>

theorem batch_flush_and_close:
  assumes "\<forall>c \<in> set calls. call_succeeds c"
  shows "(length calls = 5 \<and> data_buffer L = [] \<longrightarrow>
            excel_flushes (log_detections L (map (\<lambda>c. (c, io_ok)) calls)) = excel_flushes L + 1
            \<and> data_buffer (log_detections L (map (\<lambda>c. (c, io_ok)) calls)) = []
            \<and> csv_buffer (log_detections L (map (\<lambda>c. (c, io_ok)) calls)) = [])
       \<and> flight_file (close_logger (log_detections L (map (\<lambda>c. (c, io_ok)) calls)) io_ok)
            = flight_file L @ data_buffer L @ map row_of calls
       \<and> competition_csv (close_logger (log_detections L (map (\<lambda>c. (c, io_ok)) calls)) io_ok)
            = competition_csv L @ csv_buffer L @ concat (map entries_of calls)
       \<and> data_buffer (close_logger (log_detections L (map (\<lambda>c. (c, io_ok)) calls)) io_ok) = []
       \<and> csv_buffer (close_logger (log_detections L (map (\<lambda>c. (c, io_ok)) calls)) io_ok) = []
       \<and> (\<forall>M io. \<not> excel_writable io \<longrightarrow>
             data_buffer (flush_to_excel M io) = data_buffer M
             \<and> flight_file (flush_to_excel M io) = flight_file M)
       \<and> (\<forall>M io. \<not> csv_writable io \<longrightarrow>
             csv_buffer (flush_to_competition_csv M io) = csv_buffer M
             \<and> competition_csv (flush_to_competition_csv M io) = competition_csv M)"
proof -
  define L' where "L' = log_detections L (map (\<lambda>c. (c, io_ok)) calls)"
  have batch: "excel_flushes L' = excel_flushes L + 1 \<and> data_buffer L' = [] \<and> csv_buffer L' = []"
    if "length calls = 5 \<and> data_buffer L = []"
  proof -
    from that have lt: "length (data_buffer L) < 5" and ne: "calls \<noteq> []" by auto
    from log_detections_count [OF assms lt] that ne show ?thesis
      by (simp add: L'_def)
  qed
  from log_detections_total [OF assms, of L]
  have total: "flight_file L' @ data_buffer L' = flight_file L @ data_buffer L @ map row_of calls"
    "competition_csv L' @ csv_buffer L' = competition_csv L @ csv_buffer L @ concat (map entries_of calls)"
    by (simp_all add: L'_def)
  have failed_excel: "\<forall>M io. \<not> excel_writable io \<longrightarrow>
             data_buffer (flush_to_excel M io) = data_buffer M
             \<and> flight_file (flush_to_excel M io) = flight_file M"
    by (simp add: flush_to_excel_def Let_def)
  have failed_csv: "\<forall>M io. \<not> csv_writable io \<longrightarrow>
             csv_buffer (flush_to_competition_csv M io) = csv_buffer M
             \<and> competition_csv (flush_to_competition_csv M io) = competition_csv M"
    by (simp add: flush_to_competition_csv_def)
  from batch total failed_excel failed_csv show ?thesis
    unfolding L'_def [symmetric] by (simp add: close_logger_ok)
qed



lemma sample_calls_succeed: "call_succeeds sample_call_a" "call_succeeds sample_call_b"
  by (simp_all add: call_succeeds_def sample_call_a_def sample_call_b_def format_40_18111115)

lemma sample_entries:
  "entries_of sample_call_a = [\<lparr>e_symbol_id = 15, e_lat_e7 = 401811112, e_lon_e7 = 445135555\<rparr>]"
  "entries_of sample_call_b = []"
  by (simp_all add: entries_of_def sample_call_a_def sample_call_b_def format_40_18111115)

theorem batch_flush_and_close_witness:
  "call_succeeds sample_call_a \<and> call_succeeds sample_call_b
   \<and> excel_flushes (log_detections new_logger (map (\<lambda>c. (c, io_ok)) five_calls)) = 1
   \<and> data_buffer (log_detections new_logger (map (\<lambda>c. (c, io_ok)) five_calls)) = []
   \<and> flight_file (close_logger (log_detections new_logger (map (\<lambda>c. (c, io_ok)) five_calls)) io_ok)
       = [row_of sample_call_a, row_of sample_call_b, row_of sample_call_a, row_of sample_call_b,
          row_of sample_call_a]
   \<and> competition_csv (close_logger (log_detections new_logger (map (\<lambda>c. (c, io_ok)) five_calls)) io_ok)
       = [\<lparr>e_symbol_id = 15, e_lat_e7 = 401811112, e_lon_e7 = 445135555\<rparr>,
          \<lparr>e_symbol_id = 15, e_lat_e7 = 401811112, e_lon_e7 = 445135555\<rparr>,
          \<lparr>e_symbol_id = 15, e_lat_e7 = 401811112, e_lon_e7 = 445135555\<rparr>]"
proof -
  have hyp: "\<forall>c \<in> set five_calls. call_succeeds c"
    by (simp add: five_calls_def sample_calls_succeed)
  have start: "data_buffer new_logger = []" "csv_buffer new_logger = []"
    "flight_file new_logger = []" "competition_csv new_logger = []" "excel_flushes new_logger = 0"
    by (simp_all add: new_logger_def excel_flushes_def)
  have len: "length five_calls = 5" by (simp add: five_calls_def)
  have rows: "map row_of five_calls = [row_of sample_call_a, row_of sample_call_b,
      row_of sample_call_a, row_of sample_call_b, row_of sample_call_a]"
    by (simp add: five_calls_def)
  have entries: "concat (map entries_of five_calls) =
      [\<lparr>e_symbol_id = 15, e_lat_e7 = 401811112, e_lon_e7 = 445135555\<rparr>,
       \<lparr>e_symbol_id = 15, e_lat_e7 = 401811112, e_lon_e7 = 445135555\<rparr>,
       \<lparr>e_symbol_id = 15, e_lat_e7 = 401811112, e_lon_e7 = 445135555\<rparr>]"
    by (simp add: five_calls_def sample_entries)
  from batch_flush_and_close [OF hyp, of new_logger] sample_calls_succeed
  show ?thesis
    by (simp add: start len rows entries)
qed


end
